theory Spec2Isabelle
  imports Main "HOL-Library.Word"
begin

section \<open>Data model\<close>

text \<open>
  Go's \<open>int64\<close> is a 64-bit word: \<open>+\<close> wraps around, and the comparisons of the
  source are the signed ones, written here on \<open>sint\<close>. \<open>time.Duration\<close> is an
  \<open>int64\<close> counting nanoseconds. Go's \<open>int\<close> (\<open>Limit\<close>, \<open>Timeout\<close>, the HTTP status
  code) is only compared and copied, never computed with, and is modelled as \<open>int\<close>.
\<close>

type_synonym int64 = "64 word"
type_synonym Duration = "64 word"

definition Second :: Duration where
  "Second = 1000000000"

definition Minute :: Duration where
  "Minute = 60 * Second"

subsection \<open>Update kinds\<close>

type_synonym UpdateType = string

definition MessageUpdate :: UpdateType where
  "MessageUpdate = ''message''"

definition EditedMessageUpdate :: UpdateType where
  "EditedMessageUpdate = ''edited_message''"

definition ChannelPostUpdate :: UpdateType where
  "ChannelPostUpdate = ''channel_post''"

definition EditedChannelPostUpdate :: UpdateType where
  "EditedChannelPostUpdate = ''edited_channel_post''"

definition InlineQueryUpdate :: UpdateType where
  "InlineQueryUpdate = ''inline_query''"

definition ChosenInlineResultUpdate :: UpdateType where
  "ChosenInlineResultUpdate = ''chosen_inline_result''"

definition CallbackQueryUpdate :: UpdateType where
  "CallbackQueryUpdate = ''callback_query''"

text \<open>
  The struct \<open>Update\<close>. Its seven payload fields are pointers: \<open>None\<close> is \<open>nil\<close>.
  The payload structs (\<open>Message\<close>, \<open>InlineQuery\<close>, \<open>ChosenInlineResult\<close>,
  \<open>CallbackQuery\<close>) are never inspected by the code modelled here and are type
  parameters.
\<close>

record ('m, 'iq, 'cir, 'cq) Update =
  ID :: int64
  Message :: "'m option"
  EditedMessage :: "'m option"
  ChannelPost :: "'m option"
  EditedChannelPost :: "'m option"
  InlineQuery :: "'iq option"
  ChosenInlineResult :: "'cir option"
  CallbackQuery :: "'cq option"

text \<open>\<open>func (u *Update) Type() UpdateType\<close>, on the struct the receiver points to.\<close>

definition Type :: "('m, 'iq, 'cir, 'cq) Update \<Rightarrow> UpdateType" where
  "Type u =
     (if Message u \<noteq> None then MessageUpdate
      else if EditedMessage u \<noteq> None then EditedMessageUpdate
      else if ChannelPost u \<noteq> None then ChannelPostUpdate
      else if EditedChannelPost u \<noteq> None then EditedChannelPostUpdate
      else if InlineQuery u \<noteq> None then InlineQueryUpdate
      else if ChosenInlineResult u \<noteq> None then ChosenInlineResultUpdate
      else if CallbackQuery u \<noteq> None then CallbackQueryUpdate
      else '''')"

text \<open>The struct \<open>User\<close>; its identifier field is named \<open>ID\<close> in the source.\<close>

record User =
  UserID :: int64
  IsBot :: bool
  FirstName :: string
  LastName :: string
  Username :: string
  LanguageCode :: string

text \<open>The zero value that \<open>var me User\<close> declares.\<close>

definition zeroUser :: User where
  "zeroUser = \<lparr>UserID = 0, IsBot = False, FirstName = '''', LastName = '''',
     Username = '''', LanguageCode = ''''\<rparr>"

text \<open>The struct \<open>GetUpdates\<close>, the request of the polling call.\<close>

record GetUpdates =
  Offset :: int64
  Limit :: int
  Timeout :: int
  AllowedUpdates :: "UpdateType list"

section \<open>Transport (caller.go)\<close>

text \<open>
  An \<open>error\<close> value is either the package's own \<open>*Error{HTTPCode, Description}\<close>
  or an error handed back by \<open>encoding/json\<close> or \<open>net/http\<close>, kept as its message.
\<close>

type_synonym liberr = string

datatype error = Error int string | Foreign liberr

text \<open>\<open>http.Client\<close>: only its timeout is configured (the source's field is \<open>Timeout\<close>).\<close>

record Client =
  ClientTimeout :: Duration

record Caller =
  prefix :: string
  client :: Client
  pollClient :: Client

record outerResponse =
  Ok :: bool
  Result :: string
  Description :: string

text \<open>
  \<open>http.Request\<close> as far as the code sets it: method, URL, optional body and the
  headers. \<open>http.Response\<close>: the status code and the body (\<open>Body\<close> in Go).
\<close>

record Request =
  Method :: string
  URL :: string
  Body :: "string option"
  Header :: "string \<rightharpoonup> string"

record Response =
  StatusCode :: int
  ResBody :: string

text \<open>
  What lies outside the repository, as it stands during one call: \<open>json.Marshal\<close> on
  the request type, the checks of \<open>http.NewRequest\<close> (\<open>Reject method url\<close> is the error
  it returns, if any), the HTTP transaction \<open>client.Do\<close>, the decoding of the
  envelope, and \<open>json.Unmarshal\<close> into the response target. \<open>json.Unmarshal\<close> writes
  through the pointer it is given: it maps the target's old content to its new content
  and the error, if any.
\<close>

record ('rq, 'rs) world =
  Marshal :: "'rq \<Rightarrow> liberr + string"
  Reject :: "string \<Rightarrow> string \<Rightarrow> liberr option"
  RoundTrip :: "Client \<Rightarrow> Request \<Rightarrow> liberr + Response"
  DecodeOuter :: "string \<Rightarrow> liberr + outerResponse"
  Unmarshal :: "string \<Rightarrow> 'rs \<Rightarrow> 'rs \<times> liberr option"

text \<open>\<open>http.NewRequest(method, url, body)\<close>: a request with no header set, or an error.\<close>

definition NewRequest ::
  "('rq, 'rs) world \<Rightarrow> string \<Rightarrow> string \<Rightarrow> string option \<Rightarrow> liberr + Request" where
  "NewRequest w method url input =
     (case Reject w method url of
        Some e \<Rightarrow> Inl e
      | None \<Rightarrow> Inr \<lparr>Method = method, URL = url, Body = input, Header = Map.empty\<rparr>)"

text \<open>
  The result of one \<open>Caller.do\<close>: the HTTP transactions it performed (\<open>client.Do\<close>
  was reached with this client and request), the content of the response target
  afterwards (\<open>None\<close> when \<open>response\<close> was \<open>nil\<close>), and the returned error
  (\<open>None\<close> is \<open>nil\<close>).
\<close>

record 'rs outcome =
  sent :: "(Client \<times> Request) list"
  target :: "'rs option"
  err :: "error option"

text \<open>
  First part of \<open>Caller.do\<close> (up to the header): the method and body are chosen by
  \<open>request != nil\<close>, the request is created for \<open>c.prefix + name\<close>, and the content
  type is set when there is a request payload.
\<close>

definition do_request ::
  "('rq, 'rs) world \<Rightarrow> Caller \<Rightarrow> string \<Rightarrow> 'rq option \<Rightarrow> liberr + Request" where
  "do_request w c name request =
     (case (case request of
              Some r \<Rightarrow> (case Marshal w r of
                           Inl e \<Rightarrow> Inl e
                         | Inr buf \<Rightarrow> Inr (''POST'', Some buf))
            | None \<Rightarrow> Inr (''GET'', None)) of
        Inl e \<Rightarrow> Inl e
      | Inr (method, input) \<Rightarrow>
          (case NewRequest w method (prefix c @ name) input of
             Inl e \<Rightarrow> Inl e
           | Inr req \<Rightarrow>
               Inr (if request \<noteq> None
                    then req\<lparr>Header := (Header req)(''Content-Type'' \<mapsto> ''application/json'')\<rparr>
                    else req)))"

text \<open>
  Last part of \<open>Caller.do\<close>, once the envelope is decoded: the check of \<open>outer.Ok\<close>
  and the decoding of the inner result. It yields the target's content and the error.
\<close>

definition do_response ::
  "('rq, 'rs) world \<Rightarrow> Response \<Rightarrow> outerResponse \<Rightarrow> 'rs option \<Rightarrow> 'rs option \<times> error option" where
  "do_response w res outer response =
     (if \<not> Ok outer then
        (if length (Description outer) = 0
         then (response, Some (Error (StatusCode res) ''undefined error''))
         else (response, Some (Error (StatusCode res) (Description outer))))
      else
        (case response of
           Some t \<Rightarrow>
             (case Unmarshal w (Result outer) t of
                (t', Some e) \<Rightarrow> (Some t', Some (Foreign e))
              | (t', None) \<Rightarrow> (Some t', None))
         | None \<Rightarrow> (None, None)))"

text \<open>\<open>func (c *Caller) do(client, name, request, response) error\<close>.\<close>

definition do ::
  "('rq, 'rs) world \<Rightarrow> Caller \<Rightarrow> Client \<Rightarrow> string \<Rightarrow> 'rq option \<Rightarrow> 'rs option \<Rightarrow> 'rs outcome" where
  "do w c cl name request response =
     (case do_request w c name request of
        Inl e \<Rightarrow> \<lparr>sent = [], target = response, err = Some (Foreign e)\<rparr>
      | Inr req \<Rightarrow>
          (case RoundTrip w cl req of
             Inl e \<Rightarrow> \<lparr>sent = [(cl, req)], target = response, err = Some (Foreign e)\<rparr>
           | Inr res \<Rightarrow>
               (case DecodeOuter w (ResBody res) of
                  Inl e \<Rightarrow> \<lparr>sent = [(cl, req)], target = response, err = Some (Foreign e)\<rparr>
                | Inr outer \<Rightarrow>
                    (case do_response w res outer response of
                       (t, e) \<Rightarrow> \<lparr>sent = [(cl, req)], target = t, err = e\<rparr>))))"

definition Call ::
  "('rq, 'rs) world \<Rightarrow> Caller \<Rightarrow> string \<Rightarrow> 'rq option \<Rightarrow> 'rs option \<Rightarrow> 'rs outcome" where
  "Call w c name request response = do w c (client c) name request response"

definition Poll ::
  "('rq, 'rs) world \<Rightarrow> Caller \<Rightarrow> string \<Rightarrow> 'rq option \<Rightarrow> 'rs option \<Rightarrow> 'rs outcome" where
  "Poll w c name request response = do w c (pollClient c) name request response"

definition NewCaller :: "string \<Rightarrow> string \<Rightarrow> Caller" where
  "NewCaller endpoint token =
     \<lparr>prefix = endpoint @ token @ ''/'',
      client = \<lparr>ClientTimeout = 10 * Second\<rparr>,
      pollClient = \<lparr>ClientTimeout = 5 * Minute\<rparr>\<rparr>"

section \<open>Bot\<close>

definition EndpointURL :: string where
  "EndpointURL = ''https://api.telegram.org/bot''"

definition DefaultBackoffPeriod :: Duration where
  "DefaultBackoffPeriod = 5 * Second"

definition DefaultPollTimeout :: int where
  "DefaultPollTimeout = 60"

record Bot =
  Self :: "User option"
  BackoffPeriod :: Duration
  caller :: Caller

text \<open>
  \<open>func (b *Bot) GetMe() (*User, error)\<close>: the returned pointer is \<open>&me\<close>, never nil.
  The first component is the HTTP log of the call.
\<close>

definition GetMe ::
  "('rq, User) world \<Rightarrow> Bot \<Rightarrow> (Client \<times> Request) list \<times> User \<times> error option" where
  "GetMe w b =
     (let out = Call w (caller b) ''getMe'' None (Some zeroUser)
      in (sent out, (case target out of Some me \<Rightarrow> me | None \<Rightarrow> zeroUser), err out))"

text \<open>\<open>func NewBot(token string) (*Bot, error)\<close>, with the HTTP log of the construction.\<close>

definition NewBot ::
  "('rq, User) world \<Rightarrow> string \<Rightarrow> (Client \<times> Request) list \<times> Bot \<times> error option" where
  "NewBot w token =
     (let bot = \<lparr>Self = None, BackoffPeriod = DefaultBackoffPeriod,
                 caller = NewCaller EndpointURL token\<rparr>
      in (case GetMe w bot of
            (log, me, e) \<Rightarrow> (log, bot\<lparr>Self := Some me\<rparr>, e)))"

section \<open>The poller\<close>

text \<open>
  \<open>func (b *Bot) GetUpdates(req *GetUpdates) ([]*Update, error)\<close>. The slice holds
  pointers: \<open>None\<close> is a nil element. \<open>var updates []*Update\<close> starts as the nil
  slice, and both the slice and the error are returned whatever the error is. The
  first component is the HTTP log of the call.
\<close>

definition GetUpdates ::
  "(GetUpdates, ('m, 'iq, 'cir, 'cq) Update option list) world \<Rightarrow> Bot \<Rightarrow> GetUpdates \<Rightarrow>
     (Client \<times> Request) list \<times> ('m, 'iq, 'cir, 'cq) Update option list \<times> error option" where
  "GetUpdates w b req =
     (let out = Poll w (caller b) ''getUpdates'' (Some req) (Some [])
      in (sent out, (case target out of Some updates \<Rightarrow> updates | None \<Rightarrow> []), err out))"

text \<open>
  What the goroutine of \<open>PollUpdates\<close> does, in program order: each call of
  \<open>b.GetUpdates(req)\<close> with the content of \<open>*req\<close> at that moment, the HTTP
  transactions of that call, each send on \<open>retupd\<close> and on \<open>reterr\<close>, each
  \<open>time.Sleep\<close> with its duration, and the two \<open>close\<close> calls. A send is recorded
  when the goroutine executes it; the channels are unbuffered, so the consumer has
  received the value when the goroutine goes on.
\<close>

datatype 'u event =
    CallGetUpdates GetUpdates
  | Transact Client Request
  | SendUpdate "'u option"
  | SendError error
  | Sleep Duration
  | CloseUpdates
  | CloseErrors

text \<open>
  The goroutine is \<open>Running\<close> while it loops, \<open>Stopped\<close> once it has returned, and
  \<open>Panicked\<close> when it dereferenced a nil \<open>*Update\<close> (\<open>upd.ID\<close>).
\<close>

datatype phase = Running | Stopped | Panicked

record 'u poller =
  req :: GetUpdates
  phase :: phase
  trace :: "'u event list"

text \<open>
  A context, as the loop sees it: whether the channel \<open>ctx.Done()\<close> is closed when
  the \<open>select\<close> of the k-th iteration runs. \<open>context.Background()\<close> is never done.
\<close>

type_synonym Context = "nat \<Rightarrow> bool"

definition Background :: Context where
  "Background = (\<lambda>k. False)"

text \<open>The inner loop \<open>for _, upd := range upds\<close>.\<close>

fun deliver ::
  "('m, 'iq, 'cir, 'cq) Update option list \<Rightarrow> ('m, 'iq, 'cir, 'cq) Update poller \<Rightarrow>
     ('m, 'iq, 'cir, 'cq) Update poller" where
  "deliver [] st = st"
| "deliver (upd # upds) st =
     (let st1 = st\<lparr>trace := trace st @ [SendUpdate upd]\<rparr>
      in case upd of
           None \<Rightarrow> st1\<lparr>phase := Panicked\<rparr>
         | Some u \<Rightarrow>
             deliver upds
               (if sint (Offset (req st1)) \<le> sint (ID u)
                then st1\<lparr>req := (req st1)\<lparr>Offset := ID u + 1\<rparr>\<rparr>
                else st1))"

text \<open>
  One pass through the body of the outer \<open>for\<close>, the k-th one. The \<open>select\<close> takes
  the \<open>done\<close> case when the channel is closed and the \<open>default\<close> case otherwise.
  \<open>ws k\<close> is the outside world during this pass.
\<close>

definition iteration ::
  "(nat \<Rightarrow> (GetUpdates, ('m, 'iq, 'cir, 'cq) Update option list) world) \<Rightarrow> Bot \<Rightarrow> Context \<Rightarrow>
     nat \<Rightarrow> ('m, 'iq, 'cir, 'cq) Update poller \<Rightarrow> ('m, 'iq, 'cir, 'cq) Update poller" where
  "iteration ws b done k st =
     (if done k then
        st\<lparr>trace := trace st @ [CloseUpdates, CloseErrors], phase := Stopped\<rparr>
      else
        (case GetUpdates (ws k) b (req st) of
           (log, upds, e) \<Rightarrow>
             (let st1 = st\<lparr>trace := trace st @ CallGetUpdates (req st) # map (\<lambda>(cl, rq). Transact cl rq) log\<rparr>
              in case e of
                   Some er \<Rightarrow> st1\<lparr>trace := trace st1 @ [SendError er, Sleep (BackoffPeriod b)]\<rparr>
                 | None \<Rightarrow> deliver upds st1)))"

text \<open>
  The outer \<open>for\<close>: \<open>n\<close> bounds the number of passes looked at, \<open>k\<close> numbers the
  next pass. Nothing runs after the goroutine returned or panicked.
\<close>

fun loop ::
  "(nat \<Rightarrow> (GetUpdates, ('m, 'iq, 'cir, 'cq) Update option list) world) \<Rightarrow> Bot \<Rightarrow> Context \<Rightarrow>
     nat \<Rightarrow> nat \<Rightarrow> ('m, 'iq, 'cir, 'cq) Update poller \<Rightarrow> ('m, 'iq, 'cir, 'cq) Update poller" where
  "loop ws b done 0 k st = st"
| "loop ws b done (Suc n) k st =
     (if phase st \<noteq> Running then st
      else loop ws b done n (Suc k) (iteration ws b done k st))"

text \<open>
  \<open>func (b *Bot) PollUpdates(ctx, req) (chan *Update, chan error)\<close>, observed after
  \<open>n\<close> passes of its goroutine. \<open>req\<close> is a pointer: \<open>req.Timeout\<close> on nil panics
  (\<open>None\<close>). From then on the goroutine is the only one to touch \<open>*req\<close>, and
  nobody changes \<open>b.BackoffPeriod\<close>, as the doc comment of \<open>PollUpdates\<close> asks.
\<close>

definition PollUpdates ::
  "(nat \<Rightarrow> (GetUpdates, ('m, 'iq, 'cir, 'cq) Update option list) world) \<Rightarrow> Bot \<Rightarrow>
     Context option \<Rightarrow> GetUpdates option \<Rightarrow> nat \<Rightarrow> ('m, 'iq, 'cir, 'cq) Update poller option" where
  "PollUpdates ws b ctx request n =
     (let ctx1 = (case ctx of None \<Rightarrow> Background | Some c \<Rightarrow> c)
      in case request of
           None \<Rightarrow> None
         | Some r \<Rightarrow>
             (let r1 = (if Timeout r \<le> 0 then r\<lparr>Timeout := DefaultPollTimeout\<rparr> else r)
              in Some (loop ws b ctx1 n 0 \<lparr>req = r1, phase = Running, trace = []\<rparr>)))"

text \<open>
  The answers that the calls of \<open>b.GetUpdates\<close> got in the passes \<open>k\<close>, \<open>k + 1\<close>, ...
  of the loop, in order: what the remote end returned to this session.
\<close>

fun results ::
  "(nat \<Rightarrow> (GetUpdates, ('m, 'iq, 'cir, 'cq) Update option list) world) \<Rightarrow> Bot \<Rightarrow> Context \<Rightarrow>
     nat \<Rightarrow> nat \<Rightarrow> ('m, 'iq, 'cir, 'cq) Update poller \<Rightarrow>
     ((Client \<times> Request) list \<times> ('m, 'iq, 'cir, 'cq) Update option list \<times> error option) list" where
  "results ws b done 0 k st = []"
| "results ws b done (Suc n) k st =
     (if phase st \<noteq> Running \<or> done k then []
      else GetUpdates (ws k) b (req st) # results ws b done n (Suc k) (iteration ws b done k st))"

text \<open>
  The values sent on \<open>retupd\<close>, in the order of the sends, and the batches of the
  answers that came without an error.
\<close>

fun emitted :: "'u event list \<Rightarrow> 'u option list" where
  "emitted [] = []"
| "emitted (SendUpdate u # tr) = u # emitted tr"
| "emitted (ev # tr) = emitted tr"

definition batches :: "('l \<times> 'b \<times> error option) list \<Rightarrow> 'b list" where
  "batches rs = map (\<lambda>r. fst (snd r)) (filter (\<lambda>r. snd (snd r) = None) rs)"

section \<open>Scripted surroundings\<close>

text \<open>
  An outside world that answers every call the same way, and an update that carries
  only its identifier. They serve to run the model on concrete inputs.
\<close>

definition scripted ::
  "liberr + string \<Rightarrow> liberr option \<Rightarrow> liberr + Response \<Rightarrow> liberr + outerResponse \<Rightarrow>
     'rs \<times> liberr option \<Rightarrow> ('rq, 'rs) world" where
  "scripted m rj rt d un =
     \<lparr>Marshal = (\<lambda>_. m), Reject = (\<lambda>_ _. rj), RoundTrip = (\<lambda>_ _. rt),
      DecodeOuter = (\<lambda>_. d), Unmarshal = (\<lambda>_ _. un)\<rparr>"

definition bare :: "int64 \<Rightarrow> (unit, unit, unit, unit) Update" where
  "bare i = \<lparr>ID = i, Message = None, EditedMessage = None, ChannelPost = None,
     EditedChannelPost = None, InlineQuery = None, ChosenInlineResult = None,
     CallbackQuery = None\<rparr>"

text \<open>A world in which the remote end answers every call with the batch \<open>us\<close>.\<close>

definition replying ::
  "(unit, unit, unit, unit) Update option list \<Rightarrow>
     (GetUpdates, (unit, unit, unit, unit) Update option list) world" where
  "replying us =
     scripted (Inr ''{}'') None (Inr \<lparr>StatusCode = 200, ResBody = ''{}''\<rparr>)
       (Inr \<lparr>Ok = True, Result = ''[]'', Description = []\<rparr>) (us, None)"

text \<open>A world in which every HTTP transaction fails.\<close>

definition unreachable ::
  "(GetUpdates, (unit, unit, unit, unit) Update option list) world" where
  "unreachable = scripted (Inr ''{}'') None (Inl ''timeout'') (Inl ''unused'') ([], None)"

text \<open>
  A world for calls without a request payload that decode into a \<open>User\<close>: the
  transaction returns the given status, the envelope decodes to \<open>outer\<close>.
\<close>

definition answering ::
  "int \<Rightarrow> outerResponse \<Rightarrow> User \<times> liberr option \<Rightarrow> (unit, User) world" where
  "answering status outer un =
     scripted (Inr ''{}'') None (Inr \<lparr>StatusCode = status, ResBody = ''{}''\<rparr>) (Inr outer) un"

definition someBot :: Bot where
  "someBot = \<lparr>Self = None, BackoffPeriod = DefaultBackoffPeriod,
     caller = NewCaller EndpointURL ''123:abc''\<rparr>"

definition someRequest :: GetUpdates where
  "someRequest = \<lparr>Offset = 0, Limit = 0, Timeout = 0, AllowedUpdates = []\<rparr>"

text \<open>
  The same world in every pass, a world that answers the k-th pass with the k-th
  batch of a list (and with empty batches afterwards), and the state in which the
  goroutine starts on a request. \<open>topID\<close> is the largest \<open>int64\<close>, \<open>2 ^ 63 - 1\<close>.
\<close>

definition steady :: "'w \<Rightarrow> nat \<Rightarrow> 'w" where
  "steady w = (\<lambda>k. w)"

definition feed ::
  "(unit, unit, unit, unit) Update option list list \<Rightarrow> nat \<Rightarrow>
     (GetUpdates, (unit, unit, unit, unit) Update option list) world" where
  "feed bs k = replying (case drop k bs of [] \<Rightarrow> [] | us # _ \<Rightarrow> us)"

text \<open>A context that is cancelled before pass \<open>m\<close> and stays so.\<close>

definition cancelledFrom :: "nat \<Rightarrow> Context" where
  "cancelledFrom m = (\<lambda>k. m \<le> k)"

definition started :: "GetUpdates \<Rightarrow> (unit, unit, unit, unit) Update poller" where
  "started q = \<lparr>req = q, phase = Running, trace = []\<rparr>"

definition topID :: int64 where
  "topID = 9223372036854775807"

section \<open>Update kinds: \<open>Type\<close>\<close>

lemmas UpdateType_defs =
  MessageUpdate_def EditedMessageUpdate_def ChannelPostUpdate_def EditedChannelPostUpdate_def
  InlineQueryUpdate_def ChosenInlineResultUpdate_def CallbackQueryUpdate_def

text \<open>
  C10. \<open>Type\<close> is a total function of the update: it returns the kind of the first
  non-nil payload field in the order message, edited message, channel post, edited
  channel post, inline query, chosen inline result, callback query, whatever the later
  fields hold, and the empty string when all seven are nil.
\<close>

theorem Type_first_populated:
  fixes u :: "('m, 'iq, 'cir, 'cq) Update"
  shows
  "(Message u \<noteq> None \<longrightarrow> Type u = ''message'') \<and>
   (Message u = None \<and> EditedMessage u \<noteq> None \<longrightarrow> Type u = ''edited_message'') \<and>
   (Message u = None \<and> EditedMessage u = None \<and> ChannelPost u \<noteq> None \<longrightarrow>
      Type u = ''channel_post'') \<and>
   (Message u = None \<and> EditedMessage u = None \<and> ChannelPost u = None \<and>
    EditedChannelPost u \<noteq> None \<longrightarrow> Type u = ''edited_channel_post'') \<and>
   (Message u = None \<and> EditedMessage u = None \<and> ChannelPost u = None \<and>
    EditedChannelPost u = None \<and> InlineQuery u \<noteq> None \<longrightarrow> Type u = ''inline_query'') \<and>
   (Message u = None \<and> EditedMessage u = None \<and> ChannelPost u = None \<and>
    EditedChannelPost u = None \<and> InlineQuery u = None \<and> ChosenInlineResult u \<noteq> None \<longrightarrow>
      Type u = ''chosen_inline_result'') \<and>
   (Message u = None \<and> EditedMessage u = None \<and> ChannelPost u = None \<and>
    EditedChannelPost u = None \<and> InlineQuery u = None \<and> ChosenInlineResult u = None \<and>
    CallbackQuery u \<noteq> None \<longrightarrow> Type u = ''callback_query'') \<and>
   (Message u = None \<and> EditedMessage u = None \<and> ChannelPost u = None \<and>
    EditedChannelPost u = None \<and> InlineQuery u = None \<and> ChosenInlineResult u = None \<and>
    CallbackQuery u = None \<longrightarrow> Type u = [])"
  by (simp add: Type_def UpdateType_defs)

theorem Type_first_populated_witness:
  "Type (bare 1) = [] \<and>
   Type ((bare 2)\<lparr>Message := Some (), CallbackQuery := Some ()\<rparr>) = ''message'' \<and>
   Type ((bare 3)\<lparr>EditedMessage := Some (), ChannelPost := Some ()\<rparr>) = ''edited_message'' \<and>
   Type ((bare 4)\<lparr>ChannelPost := Some (), InlineQuery := Some ()\<rparr>) = ''channel_post'' \<and>
   Type ((bare 5)\<lparr>EditedChannelPost := Some ()\<rparr>) = ''edited_channel_post'' \<and>
   Type ((bare 6)\<lparr>InlineQuery := Some (), ChosenInlineResult := Some (),
      CallbackQuery := Some ()\<rparr>) = ''inline_query'' \<and>
   Type ((bare 7)\<lparr>ChosenInlineResult := Some ()\<rparr>) = ''chosen_inline_result'' \<and>
   Type ((bare 8)\<lparr>CallbackQuery := Some ()\<rparr>) = ''callback_query''"
  using
    Type_first_populated [of "bare 1"]
    Type_first_populated [of "(bare 2)\<lparr>Message := Some (), CallbackQuery := Some ()\<rparr>"]
    Type_first_populated [of "(bare 3)\<lparr>EditedMessage := Some (), ChannelPost := Some ()\<rparr>"]
    Type_first_populated [of "(bare 4)\<lparr>ChannelPost := Some (), InlineQuery := Some ()\<rparr>"]
    Type_first_populated [of "(bare 5)\<lparr>EditedChannelPost := Some ()\<rparr>"]
    Type_first_populated [of "(bare 6)\<lparr>InlineQuery := Some (), ChosenInlineResult := Some (),
      CallbackQuery := Some ()\<rparr>"]
    Type_first_populated [of "(bare 7)\<lparr>ChosenInlineResult := Some ()\<rparr>"]
    Type_first_populated [of "(bare 8)\<lparr>CallbackQuery := Some ()\<rparr>"]
  by (simp add: bare_def)

section \<open>Transport: \<open>Caller.do\<close>\<close>

lemma do_request_ignores_Unmarshal:
  "do_request (w\<lparr>Unmarshal := f\<rparr>) c name request = do_request w c name request"
  by (simp add: do_request_def NewRequest_def split: option.split sum.split)

lemma answering_request:
  "do_request (answering s outer un) (NewCaller e t) name None =
     Inr \<lparr>Method = ''GET'', URL = e @ t @ ''/'' @ name, Body = None, Header = Map.empty\<rparr>"
  by (simp add: answering_def scripted_def do_request_def NewRequest_def NewCaller_def)

lemma answering_RoundTrip:
  "RoundTrip (answering s outer un) cl rq = Inr \<lparr>StatusCode = s, ResBody = ''{}''\<rparr>"
  by (simp add: answering_def scripted_def)

lemma answering_DecodeOuter:
  "DecodeOuter (answering s outer un) body = Inr outer"
  by (simp add: answering_def scripted_def)

lemma answering_Unmarshal:
  "Unmarshal (answering s outer un) raw t = un"
  by (simp add: answering_def scripted_def)

lemma answering_Reject:
  "Reject (answering s outer un) m u = None"
  by (simp add: answering_def scripted_def)

lemma triple_collapse: "x = (fst x, fst (snd x), snd (snd x))"
  by simp

text \<open>
  C4. Once the envelope of a call is decoded: when its success flag is false the call
  fails with \<open>Error\<close> carrying the HTTP status code and the envelope's description,
  \<open>undefined error\<close> standing in for an empty description, and the raw result is not
  decoded (the response target is untouched and the outcome does not depend on
  \<open>json.Unmarshal\<close>). When the flag is true and a response target was given, the raw
  result is decoded into it and the call fails, with the decoder's error, exactly when
  the decoding fails. When no target was given the call succeeds and nothing is decoded.
\<close>

theorem do_envelope:
  assumes "do_request w c name request = Inr rq"
    and "RoundTrip w cl rq = Inr res"
    and "DecodeOuter w (ResBody res) = Inr outer"
  shows
    "(\<not> Ok outer \<longrightarrow>
        err (do w c cl name request response) =
          Some (Error (StatusCode res)
                  (if Description outer = [] then ''undefined error'' else Description outer)) \<and>
        target (do w c cl name request response) = response \<and>
        (\<forall>f. do (w\<lparr>Unmarshal := f\<rparr>) c cl name request response =
               do w c cl name request response)) \<and>
     (Ok outer \<longrightarrow>
        (\<forall>t. response = Some t \<longrightarrow>
           target (do w c cl name request response) = Some (fst (Unmarshal w (Result outer) t)) \<and>
           err (do w c cl name request response) =
             map_option Foreign (snd (Unmarshal w (Result outer) t)) \<and>
           (err (do w c cl name request response) \<noteq> None) =
             (snd (Unmarshal w (Result outer) t) \<noteq> None)) \<and>
        (response = None \<longrightarrow>
           err (do w c cl name request response) = None \<and>
           target (do w c cl name request response) = None \<and>
           (\<forall>f. do (w\<lparr>Unmarshal := f\<rparr>) c cl name request response =
                  do w c cl name request response)))"
proof (intro conjI impI allI)
  assume nok: "\<not> Ok outer"
  show "err (do w c cl name request response) =
          Some (Error (StatusCode res)
                  (if Description outer = [] then ''undefined error'' else Description outer))"
    using assms nok by (simp add: do_def do_response_def)
  show "target (do w c cl name request response) = response"
    using assms nok by (simp add: do_def do_response_def)
  show "do (w\<lparr>Unmarshal := f\<rparr>) c cl name request response = do w c cl name request response" for f
    using assms nok by (simp add: do_def do_response_def do_request_ignores_Unmarshal)
next
  fix t
  assume ok: "Ok outer" and r: "response = Some t"
  show "target (do w c cl name request response) = Some (fst (Unmarshal w (Result outer) t))"
    using assms ok r by (simp add: do_def do_response_def split: prod.splits option.splits)
  show e: "err (do w c cl name request response) =
          map_option Foreign (snd (Unmarshal w (Result outer) t))"
    using assms ok r by (simp add: do_def do_response_def split: prod.splits option.splits)
  show "(err (do w c cl name request response) \<noteq> None) =
          (snd (Unmarshal w (Result outer) t) \<noteq> None)"
    by (simp add: e)
next
  assume ok: "Ok outer" and r: "response = None"
  show "err (do w c cl name request response) = None"
    using assms ok r by (simp add: do_def do_response_def)
  show "target (do w c cl name request response) = None"
    using assms ok r by (simp add: do_def do_response_def)
  show "do (w\<lparr>Unmarshal := f\<rparr>) c cl name request response = do w c cl name request response" for f
    using assms ok r by (simp add: do_def do_response_def do_request_ignores_Unmarshal)
qed


theorem do_envelope_witness:
  "err (do (answering 401 \<lparr>Ok = False, Result = ''null'', Description = []\<rparr> (zeroUser, None))
          (NewCaller EndpointURL ''123:abc'') \<lparr>ClientTimeout = 10 * Second\<rparr> ''getMe'' None
          (Some zeroUser)) = Some (Error 401 ''undefined error'') \<and>
   err (do (answering 403 \<lparr>Ok = False, Result = ''null'', Description = ''Forbidden''\<rparr> (zeroUser, None))
          (NewCaller EndpointURL ''123:abc'') \<lparr>ClientTimeout = 10 * Second\<rparr> ''getMe'' None
          (Some zeroUser)) = Some (Error 403 ''Forbidden'') \<and>
   target (do (answering 200 \<lparr>Ok = True, Result = ''{}'', Description = []\<rparr>
             (zeroUser\<lparr>FirstName := ''bot''\<rparr>, None))
          (NewCaller EndpointURL ''123:abc'') \<lparr>ClientTimeout = 10 * Second\<rparr> ''getMe'' None
          (Some zeroUser)) = Some (zeroUser\<lparr>FirstName := ''bot''\<rparr>) \<and>
   err (do (answering 200 \<lparr>Ok = True, Result = ''{}'', Description = []\<rparr>
             (zeroUser\<lparr>FirstName := ''bot''\<rparr>, None))
          (NewCaller EndpointURL ''123:abc'') \<lparr>ClientTimeout = 10 * Second\<rparr> ''getMe'' None
          (Some zeroUser)) = None \<and>
   err (do (answering 200 \<lparr>Ok = True, Result = ''7'', Description = []\<rparr>
             (zeroUser, Some ''cannot unmarshal''))
          (NewCaller EndpointURL ''123:abc'') \<lparr>ClientTimeout = 10 * Second\<rparr> ''getMe'' None
          (Some zeroUser)) = Some (Foreign ''cannot unmarshal'') \<and>
   err (do (answering 200 \<lparr>Ok = True, Result = ''7'', Description = []\<rparr>
             (zeroUser, Some ''cannot unmarshal''))
          (NewCaller EndpointURL ''123:abc'') \<lparr>ClientTimeout = 10 * Second\<rparr> ''getMe'' None
          None) = None"
  using
    do_envelope [where w = "answering 401 \<lparr>Ok = False, Result = ''null'', Description = []\<rparr> (zeroUser, None)"
       and c = "NewCaller EndpointURL ''123:abc''" and cl = "\<lparr>ClientTimeout = 10 * Second\<rparr>"
       and name = "''getMe''" and request = None and response = "Some zeroUser",
       OF answering_request answering_RoundTrip answering_DecodeOuter]
    do_envelope [where w = "answering 403 \<lparr>Ok = False, Result = ''null'', Description = ''Forbidden''\<rparr> (zeroUser, None)"
       and c = "NewCaller EndpointURL ''123:abc''" and cl = "\<lparr>ClientTimeout = 10 * Second\<rparr>"
       and name = "''getMe''" and request = None and response = "Some zeroUser",
       OF answering_request answering_RoundTrip answering_DecodeOuter]
    do_envelope [where w = "answering 200 \<lparr>Ok = True, Result = ''{}'', Description = []\<rparr>
             (zeroUser\<lparr>FirstName := ''bot''\<rparr>, None)"
       and c = "NewCaller EndpointURL ''123:abc''" and cl = "\<lparr>ClientTimeout = 10 * Second\<rparr>"
       and name = "''getMe''" and request = None and response = "Some zeroUser",
       OF answering_request answering_RoundTrip answering_DecodeOuter]
    do_envelope [where w = "answering 200 \<lparr>Ok = True, Result = ''7'', Description = []\<rparr>
             (zeroUser, Some ''cannot unmarshal'')"
       and c = "NewCaller EndpointURL ''123:abc''" and cl = "\<lparr>ClientTimeout = 10 * Second\<rparr>"
       and name = "''getMe''" and request = None and response = "Some zeroUser",
       OF answering_request answering_RoundTrip answering_DecodeOuter]
    do_envelope [where w = "answering 200 \<lparr>Ok = True, Result = ''7'', Description = []\<rparr>
             (zeroUser, Some ''cannot unmarshal'')"
       and c = "NewCaller EndpointURL ''123:abc''" and cl = "\<lparr>ClientTimeout = 10 * Second\<rparr>"
       and name = "''getMe''" and request = None and response = None,
       OF answering_request answering_RoundTrip answering_DecodeOuter]
  by (simp add: answering_Unmarshal)

text \<open>
  C8. The HTTP request that \<open>do\<close> issues for a caller made by \<open>NewCaller\<close>: with a
  nil payload it is a GET with no body and no header at all; with a payload it is a
  POST whose body is the JSON text of the payload and whose only header is
  \<open>Content-Type: application/json\<close>. Either way it goes to the endpoint followed by
  the token, a slash and the method name, through the client handed to \<open>do\<close>.
  Nothing is issued when the payload cannot be serialized or \<open>http.NewRequest\<close>
  refuses the request.
\<close>

theorem do_issues:
  "(request = None \<longrightarrow>
      (Reject w ''GET'' (endpoint @ token @ ''/'' @ name) = None \<longrightarrow>
         sent (do w (NewCaller endpoint token) cl name request response) =
           [(cl, \<lparr>Method = ''GET'', URL = endpoint @ token @ ''/'' @ name, Body = None,
                  Header = Map.empty\<rparr>)]) \<and>
      (Reject w ''GET'' (endpoint @ token @ ''/'' @ name) \<noteq> None \<longrightarrow>
         sent (do w (NewCaller endpoint token) cl name request response) = [])) \<and>
   (\<forall>r. request = Some r \<longrightarrow>
      (\<forall>buf. Marshal w r = Inr buf \<and> Reject w ''POST'' (endpoint @ token @ ''/'' @ name) = None \<longrightarrow>
         sent (do w (NewCaller endpoint token) cl name request response) =
           [(cl, \<lparr>Method = ''POST'', URL = endpoint @ token @ ''/'' @ name, Body = Some buf,
                  Header = [''Content-Type'' \<mapsto> ''application/json'']\<rparr>)]) \<and>
      ((\<exists>e. Marshal w r = Inl e) \<or> Reject w ''POST'' (endpoint @ token @ ''/'' @ name) \<noteq> None \<longrightarrow>
         sent (do w (NewCaller endpoint token) cl name request response) = []))"
proof (intro conjI impI allI)
  assume "request = None" "Reject w ''GET'' (endpoint @ token @ ''/'' @ name) = None"
  then show "sent (do w (NewCaller endpoint token) cl name request response) =
           [(cl, \<lparr>Method = ''GET'', URL = endpoint @ token @ ''/'' @ name, Body = None,
                  Header = Map.empty\<rparr>)]"
    by (simp add: do_def do_request_def NewRequest_def NewCaller_def
        split: sum.split prod.split)
next
  assume "request = None" "Reject w ''GET'' (endpoint @ token @ ''/'' @ name) \<noteq> None"
  then show "sent (do w (NewCaller endpoint token) cl name request response) = []"
    by (auto simp add: do_def do_request_def NewRequest_def NewCaller_def)
next
  fix r buf
  assume "request = Some r"
    "Marshal w r = Inr buf \<and> Reject w ''POST'' (endpoint @ token @ ''/'' @ name) = None"
  then show "sent (do w (NewCaller endpoint token) cl name request response) =
           [(cl, \<lparr>Method = ''POST'', URL = endpoint @ token @ ''/'' @ name, Body = Some buf,
                  Header = [''Content-Type'' \<mapsto> ''application/json'']\<rparr>)]"
    by (simp add: do_def do_request_def NewRequest_def NewCaller_def
        split: sum.split prod.split)
next
  fix r
  assume "request = Some r"
    "(\<exists>e. Marshal w r = Inl e) \<or> Reject w ''POST'' (endpoint @ token @ ''/'' @ name) \<noteq> None"
  then show "sent (do w (NewCaller endpoint token) cl name request response) = []"
    by (auto simp add: do_def do_request_def NewRequest_def NewCaller_def split: sum.split)
qed


theorem do_issues_witness:
  "sent (do (answering 200 \<lparr>Ok = True, Result = ''{}'', Description = []\<rparr> (zeroUser, None))
           (NewCaller EndpointURL ''123:abc'') \<lparr>ClientTimeout = 10 * Second\<rparr> ''getMe'' None
           (Some zeroUser)) =
     [(\<lparr>ClientTimeout = 10 * Second\<rparr>,
       \<lparr>Method = ''GET'', URL = ''https://api.telegram.org/bot123:abc/getMe'', Body = None,
        Header = Map.empty\<rparr>)] \<and>
   sent (do (replying []) (NewCaller EndpointURL ''123:abc'') \<lparr>ClientTimeout = 5 * Minute\<rparr>
           ''getUpdates'' (Some someRequest) (Some [])) =
     [(\<lparr>ClientTimeout = 5 * Minute\<rparr>,
       \<lparr>Method = ''POST'', URL = ''https://api.telegram.org/bot123:abc/getUpdates'',
        Body = Some ''{}'', Header = [''Content-Type'' \<mapsto> ''application/json'']\<rparr>)] \<and>
   sent (do (scripted (Inl ''unsupported type'') None (Inl ''unused'') (Inl ''unused'') ([], None))
           (NewCaller EndpointURL ''123:abc'') \<lparr>ClientTimeout = 5 * Minute\<rparr>
           ''getUpdates'' (Some someRequest) (Some ([] :: unit list))) = [] \<and>
   sent (do (scripted (Inr ''{}'') (Some ''invalid URL'') (Inl ''unused'') (Inl ''unused'') ([], None))
           (NewCaller EndpointURL ''123:abc'') \<lparr>ClientTimeout = 5 * Minute\<rparr>
           ''getUpdates'' (None :: unit option) (Some ([] :: unit list))) = []"
  using
    do_issues [where request = None
      and w = "answering 200 \<lparr>Ok = True, Result = ''{}'', Description = []\<rparr> (zeroUser, None)"
      and endpoint = EndpointURL and token = "''123:abc''" and name = "''getMe''"
      and cl = "\<lparr>ClientTimeout = 10 * Second\<rparr>" and response = "Some zeroUser"]
    do_issues [where request = "Some someRequest" and w = "replying []"
      and endpoint = EndpointURL and token = "''123:abc''" and name = "''getUpdates''"
      and cl = "\<lparr>ClientTimeout = 5 * Minute\<rparr>" and response = "Some []"]
    do_issues [where request = "Some someRequest"
      and w = "scripted (Inl ''unsupported type'') None (Inl ''unused'') (Inl ''unused'') ([], None)"
      and endpoint = EndpointURL and token = "''123:abc''" and name = "''getUpdates''"
      and cl = "\<lparr>ClientTimeout = 5 * Minute\<rparr>" and response = "Some ([] :: unit list)"]
    do_issues [where request = "None :: unit option"
      and w = "scripted (Inr ''{}'') (Some ''invalid URL'') (Inl ''unused'') (Inl ''unused'') ([], None)"
      and endpoint = EndpointURL and token = "''123:abc''" and name = "''getUpdates''"
      and cl = "\<lparr>ClientTimeout = 5 * Minute\<rparr>" and response = "Some ([] :: unit list)"]
  by (simp add: answering_def replying_def scripted_def EndpointURL_def)

text \<open>
  C9. \<open>NewBot\<close> performs one \<open>getMe\<close> call and nothing else: its HTTP log and its
  error are those of that call. The call is one GET of \<open>getMe\<close> through the 10-second
  client, unless the request cannot even be created, and then construction fails. The
  returned error is nil exactly when that call succeeded at every stage.
\<close>

theorem NewBot_verifies:
  assumes "NewBot w token = (log, b, e)"
  shows
    "log = sent (Call w (NewCaller EndpointURL token) ''getMe'' None (Some zeroUser)) \<and>
     e = err (Call w (NewCaller EndpointURL token) ''getMe'' None (Some zeroUser)) \<and>
     Self b = target (Call w (NewCaller EndpointURL token) ''getMe'' None (Some zeroUser)) \<and>
     (Reject w ''GET'' (EndpointURL @ token @ ''/getMe'') = None \<longrightarrow>
        log = [(\<lparr>ClientTimeout = 10 * Second\<rparr>,
                \<lparr>Method = ''GET'', URL = EndpointURL @ token @ ''/getMe'', Body = None,
                 Header = Map.empty\<rparr>)]) \<and>
     (Reject w ''GET'' (EndpointURL @ token @ ''/getMe'') \<noteq> None \<longrightarrow> log = [] \<and> e \<noteq> None) \<and>
     (e = None) =
       (\<exists>res outer.
          Reject w ''GET'' (EndpointURL @ token @ ''/getMe'') = None \<and>
          RoundTrip w \<lparr>ClientTimeout = 10 * Second\<rparr>
            \<lparr>Method = ''GET'', URL = EndpointURL @ token @ ''/getMe'', Body = None,
             Header = Map.empty\<rparr> = Inr res \<and>
          DecodeOuter w (ResBody res) = Inr outer \<and> Ok outer \<and>
          snd (Unmarshal w (Result outer) zeroUser) = None)"
proof -
  let ?call = "Call w (NewCaller EndpointURL token) ''getMe'' None (Some zeroUser)"
  let ?url = "EndpointURL @ token @ ''/getMe''"
  let ?rq = "\<lparr>Method = ''GET'', URL = ?url, Body = None, Header = Map.empty\<rparr>"
  have tg: "target ?call \<noteq> None"
    by (simp add: Call_def do_def do_response_def split: sum.split prod.split option.split)
  have l: "log = sent ?call" and e: "e = err ?call" and sf: "Self b = target ?call"
    using assms tg by (auto simp add: NewBot_def GetMe_def Let_def split: option.splits)
  have rq: "do_request w (NewCaller EndpointURL token) ''getMe'' None =
      (case Reject w ''GET'' ?url of Some x \<Rightarrow> Inl x | None \<Rightarrow> Inr ?rq)"
    by (simp add: do_request_def NewRequest_def NewCaller_def split: option.split)
  have cl: "client (NewCaller EndpointURL token) = \<lparr>ClientTimeout = 10 * Second\<rparr>"
    by (simp add: NewCaller_def)
  have acc: "Reject w ''GET'' ?url = None \<longrightarrow> log = [(\<lparr>ClientTimeout = 10 * Second\<rparr>, ?rq)]"
    unfolding l by (simp add: Call_def do_def rq cl split: sum.split prod.split)
  have rej: "Reject w ''GET'' ?url \<noteq> None \<longrightarrow> log = [] \<and> e \<noteq> None"
    unfolding l e by (auto simp add: Call_def do_def rq)
  have ok: "(e = None) =
       (\<exists>res outer.
          Reject w ''GET'' ?url = None \<and>
          RoundTrip w \<lparr>ClientTimeout = 10 * Second\<rparr> ?rq = Inr res \<and>
          DecodeOuter w (ResBody res) = Inr outer \<and> Ok outer \<and>
          snd (Unmarshal w (Result outer) zeroUser) = None)"
    unfolding e
    by (auto simp add: Call_def do_def rq cl do_response_def
        split: sum.splits prod.splits option.splits if_splits)
  show ?thesis using l e sf acc rej ok by blast
qed


theorem NewBot_verifies_witness:
  "fst (NewBot (answering 200 \<lparr>Ok = True, Result = ''{}'', Description = []\<rparr>
                 (zeroUser\<lparr>FirstName := ''bot''\<rparr>, None)) ''123:abc'') =
     [(\<lparr>ClientTimeout = 10 * Second\<rparr>,
       \<lparr>Method = ''GET'', URL = ''https://api.telegram.org/bot123:abc/getMe'', Body = None,
        Header = Map.empty\<rparr>)] \<and>
   snd (snd (NewBot (answering 200 \<lparr>Ok = True, Result = ''{}'', Description = []\<rparr>
                 (zeroUser\<lparr>FirstName := ''bot''\<rparr>, None)) ''123:abc'')) = None \<and>
   snd (snd (NewBot (answering 401 \<lparr>Ok = False, Result = ''null'', Description = ''Unauthorized''\<rparr>
                 (zeroUser, None)) ''123:abc'')) \<noteq> None \<and>
   fst (NewBot (scripted (Inr ''{}'') (Some ''invalid URL'') (Inl ''unused'') (Inl ''unused'')
                 (zeroUser, None) :: (unit, User) world) ''123:abc'') = [] \<and>
   snd (snd (NewBot (scripted (Inr ''{}'') (Some ''invalid URL'') (Inl ''unused'') (Inl ''unused'')
                 (zeroUser, None) :: (unit, User) world) ''123:abc'')) \<noteq> None"
proof -
  let ?good = "answering 200 \<lparr>Ok = True, Result = ''{}'', Description = []\<rparr>
                 (zeroUser\<lparr>FirstName := ''bot''\<rparr>, None)"
  let ?denied = "answering 401 \<lparr>Ok = False, Result = ''null'', Description = ''Unauthorized''\<rparr>
                 (zeroUser, None)"
  let ?broken = "scripted (Inr ''{}'') (Some ''invalid URL'') (Inl ''unused'') (Inl ''unused'')
                 (zeroUser, None) :: (unit, User) world"
  note good = NewBot_verifies [OF triple_collapse, of ?good "''123:abc''"]
  note denied = NewBot_verifies [OF triple_collapse, of ?denied "''123:abc''"]
  note broken = NewBot_verifies [OF triple_collapse, of ?broken "''123:abc''"]
  have 1: "fst (NewBot ?good ''123:abc'') =
     [(\<lparr>ClientTimeout = 10 * Second\<rparr>,
       \<lparr>Method = ''GET'', URL = ''https://api.telegram.org/bot123:abc/getMe'', Body = None,
        Header = Map.empty\<rparr>)]"
    using good [THEN conjunct2, THEN conjunct2, THEN conjunct2, THEN conjunct1]
    by (simp add: answering_Reject EndpointURL_def)
  have 2: "snd (snd (NewBot ?good ''123:abc'')) = None"
    using good [THEN conjunct2, THEN conjunct2, THEN conjunct2, THEN conjunct2, THEN conjunct2]
    by (simp add: answering_Reject answering_RoundTrip answering_DecodeOuter answering_Unmarshal)
  have 3: "snd (snd (NewBot ?denied ''123:abc'')) \<noteq> None"
    using denied [THEN conjunct2, THEN conjunct2, THEN conjunct2, THEN conjunct2, THEN conjunct2]
    by (simp add: answering_Reject answering_RoundTrip answering_DecodeOuter answering_Unmarshal)
  have 4: "fst (NewBot ?broken ''123:abc'') = [] \<and> snd (snd (NewBot ?broken ''123:abc'')) \<noteq> None"
    using broken [THEN conjunct2, THEN conjunct2, THEN conjunct2, THEN conjunct2, THEN conjunct1]
    by (simp add: scripted_def)
  show ?thesis using 1 2 3 4 by blast
qed

section \<open>The inner loop\<close>

lemma sint_succ64:
  fixes x :: int64
  assumes "sint x < 2 ^ 63 - 1"
  shows "sint (x + 1) = sint x + 1"
proof -
  have lo: "- (2 ^ 63) \<le> sint x + 1"
    using sint_ge [of x] by simp
  have hi: "sint x + 1 < 2 ^ 63"
    using assms by simp
  have "sint (x + 1) = signed_take_bit 63 (sint x + 1)"
    by (simp add: sint_word_ariths)
  also have "\<dots> = sint x + 1"
    using lo hi by (rule signed_take_bit_int_eq_self)
  finally show ?thesis .
qed

lemma deliver_rest:
  "req (deliver upds st) = (req st)\<lparr>Offset := Offset (req (deliver upds st))\<rparr>"
proof (induction upds arbitrary: st)
  case Nil
  show ?case by simp
next
  case (Cons upd upds)
  show ?case
  proof (cases upd)
    case None
    then show ?thesis by simp
  next
    case (Some u)
    show ?thesis
      using Cons.IH [of "st\<lparr>trace := trace st @ [SendUpdate upd]\<rparr>"]
        Cons.IH [of "st\<lparr>trace := trace st @ [SendUpdate upd], req := (req st)\<lparr>Offset := ID u + 1\<rparr>\<rparr>"]
      by (simp add: Some Let_def)
  qed
qed

lemma deliver_trace:
  "trace (deliver (map Some us) st) = trace st @ map (\<lambda>u. SendUpdate (Some u)) us"
  by (induction us arbitrary: st) (simp_all add: Let_def)

lemma deliver_offset:
  assumes "\<forall>u \<in> set us. sint (ID u) < 2 ^ 63 - 1"
  shows "sint (Offset (req (deliver (map Some us) st))) =
           Max (insert (sint (Offset (req st))) ((\<lambda>u. sint (ID u) + 1) ` set us))"
  using assms
proof (induction us arbitrary: st)
  case Nil
  show ?case by simp
next
  case (Cons u us)
  let ?c = "sint (Offset (req st))"
  let ?S = "(\<lambda>u. sint (ID u) + 1) ` set us"
  have fin: "finite ?S" by simp
  have u: "sint (ID u + 1) = sint (ID u) + 1"
    using Cons.prems by (simp add: sint_succ64)
  have rest: "\<forall>u \<in> set us. sint (ID u) < 2 ^ 63 - 1"
    using Cons.prems by simp
  show ?case
  proof (cases "?c \<le> sint (ID u)")
    case True
    have "sint (Offset (req (deliver (map Some (u # us)) st))) =
            Max (insert (sint (ID u) + 1) ?S)"
      using True Cons.IH [OF rest, of "st\<lparr>trace := trace st @ [SendUpdate (Some u)], req := (req st)\<lparr>Offset := ID u + 1\<rparr>\<rparr>"] u
      by (simp add: Let_def)
    also have "\<dots> = Max (insert ?c (insert (sint (ID u) + 1) ?S))"
    proof -
      have "sint (ID u) + 1 \<le> Max (insert (sint (ID u) + 1) ?S)"
        using fin by simp
      then have "?c \<le> Max (insert (sint (ID u) + 1) ?S)"
        using True by linarith
      moreover have "Max (insert ?c (insert (sint (ID u) + 1) ?S)) =
          max ?c (Max (insert (sint (ID u) + 1) ?S))"
        using fin by simp
      ultimately show ?thesis by simp
    qed
    finally show ?thesis by simp
  next
    case False
    have "sint (Offset (req (deliver (map Some (u # us)) st))) = Max (insert ?c ?S)"
      using False Cons.IH [OF rest, of "st\<lparr>trace := trace st @ [SendUpdate (Some u)]\<rparr>"]
      by (simp add: Let_def)
    also have "\<dots> = Max (insert ?c (insert (sint (ID u) + 1) ?S))"
    proof -
      define M where "M = Max (insert ?c ?S)"
      have a: "sint (ID u) + 1 \<le> ?c" using False by simp
      have b: "?c \<le> M" unfolding M_def using fin by simp
      have "Max (insert (sint (ID u) + 1) (insert ?c ?S)) = max (sint (ID u) + 1) M"
        unfolding M_def by (rule Max_insert) (simp_all add: fin)
      also have "\<dots> = M" using a b by linarith
      finally show ?thesis by (simp add: M_def insert_commute)
    qed
    finally show ?thesis by simp
  qed
qed

section \<open>The outer loop\<close>

lemma emitted_append: "emitted (xs @ ys) = emitted xs @ emitted ys"
  by (induction xs rule: emitted.induct) simp_all

lemma emitted_sends: "emitted (map SendUpdate us) = us"
  by (induction us) simp_all

lemma emitted_transacts: "emitted (map (\<lambda>(cl, rq). Transact cl rq) lg) = []"
  by (induction lg) (simp_all split: prod.split)

lemma all_Some: "None \<notin> set xs \<Longrightarrow> xs = map Some (map the xs)"
  by (induction xs) auto

lemma deliver_sends:
  "\<exists>m. trace (deliver upds st) = trace st @ map SendUpdate (take m upds)"
proof (induction upds arbitrary: st)
  case Nil
  show ?case by simp
next
  case (Cons upd upds)
  show ?case
  proof (cases upd)
    case None
    have "trace (deliver (upd # upds) st) = trace st @ map SendUpdate (take 1 (upd # upds))"
      by (simp add: None)
    then show ?thesis by blast
  next
    case (Some u)
    show ?thesis
    proof (cases "sint (Offset (req st)) \<le> sint (ID u)")
      case True
      obtain m where "trace (deliver upds (st\<lparr>trace := trace st @ [SendUpdate upd],
          req := (req st)\<lparr>Offset := ID u + 1\<rparr>\<rparr>)) =
          (trace st @ [SendUpdate upd]) @ map SendUpdate (take m upds)"
        using Cons.IH [of "st\<lparr>trace := trace st @ [SendUpdate upd],
          req := (req st)\<lparr>Offset := ID u + 1\<rparr>\<rparr>"] by auto
      then have "trace (deliver (upd # upds) st) =
          trace st @ map SendUpdate (take (Suc m) (upd # upds))"
        using True by (simp add: Some Let_def)
      then show ?thesis by blast
    next
      case False
      obtain m where "trace (deliver upds (st\<lparr>trace := trace st @ [SendUpdate upd]\<rparr>)) =
          (trace st @ [SendUpdate upd]) @ map SendUpdate (take m upds)"
        using Cons.IH [of "st\<lparr>trace := trace st @ [SendUpdate upd]\<rparr>"] by auto
      then have "trace (deliver (upd # upds) st) =
          trace st @ map SendUpdate (take (Suc m) (upd # upds))"
        using False by (simp add: Some Let_def)
      then show ?thesis by blast
    qed
  qed
qed

lemma deliver_phase_any:
  "phase (deliver upds st) = phase st \<or> phase (deliver upds st) = Panicked"
proof (induction upds arbitrary: st)
  case Nil
  show ?case by simp
next
  case (Cons upd upds)
  show ?case
  proof (cases upd)
    case None
    then show ?thesis by simp
  next
    case (Some u)
    show ?thesis
      using Cons.IH [of "st\<lparr>trace := trace st @ [SendUpdate upd]\<rparr>"]
        Cons.IH [of "st\<lparr>trace := trace st @ [SendUpdate upd], req := (req st)\<lparr>Offset := ID u + 1\<rparr>\<rparr>"]
      by (simp add: Some Let_def)
  qed
qed

lemma deliver_mono:
  assumes "\<forall>u. Some u \<in> set upds \<longrightarrow> sint (ID u) < 2 ^ 63 - 1"
  shows "sint (Offset (req st)) \<le> sint (Offset (req (deliver upds st)))"
  using assms
proof (induction upds arbitrary: st)
  case Nil
  show ?case by simp
next
  case (Cons upd upds)
  show ?case
  proof (cases upd)
    case None
    then show ?thesis by simp
  next
    case (Some u)
    have u: "sint (ID u + 1) = sint (ID u) + 1"
      using Cons.prems Some by (simp add: sint_succ64)
    have rest: "\<forall>u. Some u \<in> set upds \<longrightarrow> sint (ID u) < 2 ^ 63 - 1"
      using Cons.prems by simp
    show ?thesis
    proof (cases "sint (Offset (req st)) \<le> sint (ID u)")
      case True
      have "sint (ID u) + 1 \<le> sint (Offset (req (deliver (upd # upds) st)))"
        using True u Cons.IH [OF rest, of "st\<lparr>trace := trace st @ [SendUpdate upd], req := (req st)\<lparr>Offset := ID u + 1\<rparr>\<rparr>"]
        by (simp add: Some Let_def)
      then show ?thesis using True by linarith
    next
      case False
      then show ?thesis
        using Cons.IH [OF rest, of "st\<lparr>trace := trace st @ [SendUpdate upd]\<rparr>"]
        by (simp add: Some Let_def)
    qed
  qed
qed

lemma deliver_append:
  "deliver (xs @ ys) st = (if None \<in> set xs then deliver xs st else deliver ys (deliver xs st))"
proof (induction xs arbitrary: st)
  case Nil
  show ?case by simp
next
  case (Cons x xs)
  show ?case
  proof (cases x)
    case None
    then show ?thesis by simp
  next
    case (Some u)
    show ?thesis
      using Cons.IH [of "st\<lparr>trace := trace st @ [SendUpdate x]\<rparr>"]
        Cons.IH [of "st\<lparr>trace := trace st @ [SendUpdate x], req := (req st)\<lparr>Offset := ID u + 1\<rparr>\<rparr>"]
      by (simp add: Some Let_def)
  qed
qed

lemma iteration_cancel:
  "done k \<Longrightarrow> iteration ws b done k st =
     st\<lparr>trace := trace st @ [CloseUpdates, CloseErrors], phase := Stopped\<rparr>"
  by (simp add: iteration_def)

lemma iteration_failure:
  "\<not> done k \<Longrightarrow> GetUpdates (ws k) b (req st) = (lg, upds, Some e) \<Longrightarrow>
   iteration ws b done k st =
     st\<lparr>trace := trace st @ CallGetUpdates (req st) # map (\<lambda>(cl, rq). Transact cl rq) lg @
                  [SendError e, Sleep (BackoffPeriod b)]\<rparr>"
  by (simp add: iteration_def Let_def)

lemma iteration_success:
  "\<not> done k \<Longrightarrow> GetUpdates (ws k) b (req st) = (lg, upds, None) \<Longrightarrow>
   iteration ws b done k st =
     deliver upds
       (st\<lparr>trace := trace st @ CallGetUpdates (req st) # map (\<lambda>(cl, rq). Transact cl rq) lg\<rparr>)"
  by (simp add: iteration_def Let_def)

lemma loop_halted: "phase st \<noteq> Running \<Longrightarrow> loop ws b done n k st = st"
  by (cases n) simp_all


lemma replying_GetUpdates:
  "GetUpdates (replying B) b q =
     ([(pollClient (caller b),
        \<lparr>Method = ''POST'', URL = prefix (caller b) @ ''getUpdates'', Body = Some ''{}'',
         Header = [''Content-Type'' \<mapsto> ''application/json'']\<rparr>)], B, None)"
  by (simp add: GetUpdates_def Poll_def do_def do_request_def NewRequest_def do_response_def
      replying_def scripted_def)

lemma unreachable_GetUpdates:
  "GetUpdates unreachable b q =
     ([(pollClient (caller b),
        \<lparr>Method = ''POST'', URL = prefix (caller b) @ ''getUpdates'', Body = Some ''{}'',
         Header = [''Content-Type'' \<mapsto> ''application/json'']\<rparr>)], [], Some (Foreign ''timeout''))"
  by (simp add: GetUpdates_def Poll_def do_def do_request_def NewRequest_def do_response_def
      unreachable_def scripted_def)

lemma Max_succ:
  fixes S :: "int set"
  assumes "finite S" "S \<noteq> {}"
  shows "Max ((\<lambda>x. x + 1) ` S) = Max S + 1"
  using mono_Max_commute [of "\<lambda>x::int. x + 1" S] assms by (simp add: mono_def)

text \<open>
  C1 (as amended). In a pass whose call succeeds with a batch of non-nil updates whose
  identifiers are all below \<open>2 ^ 63 - 1\<close>, the cursor after the batch is
  the maximum of the cursor before and the largest identifier plus one; an empty batch
  leaves the cursor as it is. The values are the signed readings of the 64-bit fields.
\<close>

theorem batch_advances_cursor:
  assumes "\<not> done k"
    and "GetUpdates (ws k) b (req st) = (lg, map Some us, None)"
    and "\<forall>u \<in> set us. sint (ID u) < 2 ^ 63 - 1"
  shows "sint (Offset (req (iteration ws b done k st))) =
           (if us = [] then sint (Offset (req st))
            else max (sint (Offset (req st))) (Max ((\<lambda>u. sint (ID u)) ` set us) + 1)) \<and>
         (us = [] \<longrightarrow> Offset (req (iteration ws b done k st)) = Offset (req st))"
proof -
  let ?st1 = "st\<lparr>trace := trace st @ CallGetUpdates (req st) # map (\<lambda>(cl, rq). Transact cl rq) lg\<rparr>"
  have it: "iteration ws b done k st = deliver (map Some us) ?st1"
    using assms(1,2) by (rule iteration_success)
  have off: "sint (Offset (req (iteration ws b done k st))) =
      Max (insert (sint (Offset (req st))) ((\<lambda>u. sint (ID u) + 1) ` set us))"
    unfolding it using deliver_offset [OF assms(3), of ?st1] by simp
  have "sint (Offset (req (iteration ws b done k st))) =
      max (sint (Offset (req st))) (Max ((\<lambda>u. sint (ID u)) ` set us) + 1)" if ne: "us \<noteq> []"
  proof -
    have "(\<lambda>u. sint (ID u) + 1) ` set us = (\<lambda>x. x + 1) ` ((\<lambda>u. sint (ID u)) ` set us)"
      by (simp add: image_image)
    then have "Max ((\<lambda>u. sint (ID u) + 1) ` set us) = Max ((\<lambda>u. sint (ID u)) ` set us) + 1"
      using ne by (simp add: Max_succ)
    moreover have "Max (insert (sint (Offset (req st))) ((\<lambda>u. sint (ID u) + 1) ` set us)) =
        max (sint (Offset (req st))) (Max ((\<lambda>u. sint (ID u) + 1) ` set us))"
      by (rule Max_insert) (simp_all add: ne)
    ultimately show ?thesis using off by simp
  qed
  moreover have "sint (Offset (req (iteration ws b done k st))) = sint (Offset (req st))"
    and "Offset (req (iteration ws b done k st)) = Offset (req st)" if "us = []"
    using that it by simp_all
  ultimately show ?thesis by simp
qed

theorem batch_advances_cursor_witness:
  "sint (Offset (req (iteration (steady (replying [Some (bare 5), Some (bare 7)])) someBot
                        Background 0 (started someRequest)))) = 8 \<and>
   Offset (req (iteration (steady (replying [])) someBot Background 0 (started someRequest))) = 0"
proof -
  have nd: "\<not> Background 0" by (simp add: Background_def)
  have a: "GetUpdates (steady (replying [Some (bare 5), Some (bare 7)]) 0) someBot
             (req (started someRequest)) =
           ([(pollClient (caller someBot),
              \<lparr>Method = ''POST'', URL = prefix (caller someBot) @ ''getUpdates'', Body = Some ''{}'',
               Header = [''Content-Type'' \<mapsto> ''application/json'']\<rparr>)],
            map Some [bare 5, bare 7], None)"
    by (simp add: steady_def replying_GetUpdates)
  have b: "GetUpdates (steady (replying []) 0) someBot (req (started someRequest)) =
           ([(pollClient (caller someBot),
              \<lparr>Method = ''POST'', URL = prefix (caller someBot) @ ''getUpdates'', Body = Some ''{}'',
               Header = [''Content-Type'' \<mapsto> ''application/json'']\<rparr>)],
            map Some [], None)"
    by (simp add: steady_def replying_GetUpdates)
  have ids: "\<forall>u \<in> set [bare 5, bare 7]. sint (ID u) < 2 ^ 63 - 1"
    by (simp add: bare_def)
  have none: "\<forall>u \<in> set ([] :: (unit, unit, unit, unit) Update list). sint (ID u) < 2 ^ 63 - 1"
    by simp
  show ?thesis
    using
      batch_advances_cursor [of Background 0 "steady (replying [Some (bare 5), Some (bare 7)])"
        someBot "started someRequest", OF nd a ids]
      batch_advances_cursor [of Background 0 "steady (replying [])"
        someBot "started someRequest", OF nd b none]
    by (simp add: bare_def started_def someRequest_def)
qed

text \<open>
  Without these two conditions the statement of C1 fails. For a batch holding the
  identifier \<open>2 ^ 63 - 1\<close> and the cursor 0, \<open>upd.ID + 1\<close> wraps around and the
  cursor becomes \<open>- (2 ^ 63)\<close>, not the maximum of 0 and \<open>2 ^ 63\<close>. For the
  batch 5, nil, 7, returned without an error, the goroutine panics at \<open>upd.ID\<close> on
  the nil element and the cursor is left at 6, not at 8.
\<close>

theorem batch_cursor_overflow:
  "\<not> Background 0 \<and>
   fst (snd (GetUpdates (steady (replying [Some (bare topID)]) 0) someBot
               (req (started someRequest)))) = [Some (bare topID)] \<and>
   snd (snd (GetUpdates (steady (replying [Some (bare topID)]) 0) someBot
               (req (started someRequest)))) = None \<and>
   sint (Offset (req (started someRequest))) = 0 \<and>
   sint (ID (bare topID)) = 2 ^ 63 - 1 \<and>
   sint (Offset (req (iteration (steady (replying [Some (bare topID)])) someBot Background 0
                        (started someRequest)))) = - (2 ^ 63) \<and>
   sint (Offset (req (iteration (steady (replying [Some (bare topID)])) someBot Background 0
                        (started someRequest)))) \<noteq>
     max (sint (Offset (req (started someRequest)))) (sint (ID (bare topID)) + 1) \<and>
   fst (snd (GetUpdates (steady (replying [Some (bare 5), None, Some (bare 7)]) 0) someBot
               (req (started someRequest)))) = [Some (bare 5), None, Some (bare 7)] \<and>
   snd (snd (GetUpdates (steady (replying [Some (bare 5), None, Some (bare 7)]) 0) someBot
               (req (started someRequest)))) = None \<and>
   sint (ID (bare 5)) = 5 \<and> sint (ID (bare 7)) = 7 \<and>
   phase (iteration (steady (replying [Some (bare 5), None, Some (bare 7)])) someBot Background 0
            (started someRequest)) = Panicked \<and>
   sint (Offset (req (iteration (steady (replying [Some (bare 5), None, Some (bare 7)])) someBot
                        Background 0 (started someRequest)))) = 6 \<and>
   sint (Offset (req (iteration (steady (replying [Some (bare 5), None, Some (bare 7)])) someBot
                        Background 0 (started someRequest)))) \<noteq>
     max (sint (Offset (req (started someRequest))))
         (max (sint (ID (bare 5))) (sint (ID (bare 7))) + 1)"
  by (simp add: Background_def steady_def replying_GetUpdates iteration_def started_def
      someRequest_def bare_def topID_def Let_def)


lemma iteration_shape:
  assumes "\<not> done k"
  shows "\<exists>lg upds e m.
           GetUpdates (ws k) b (req st) = (lg, upds, e) \<and>
           trace (iteration ws b done k st) =
             trace st @ CallGetUpdates (req st) # map (\<lambda>(cl, rq). Transact cl rq) lg @
               (case e of Some er \<Rightarrow> [SendError er, Sleep (BackoffPeriod b)]
                | None \<Rightarrow> map SendUpdate (take m upds)) \<and>
           req (iteration ws b done k st) =
             (req st)\<lparr>Offset := Offset (req (iteration ws b done k st))\<rparr> \<and>
           (phase (iteration ws b done k st) = phase st \<or>
            phase (iteration ws b done k st) = Panicked)"
proof -
  obtain lg upds e where g: "GetUpdates (ws k) b (req st) = (lg, upds, e)"
    by (cases "GetUpdates (ws k) b (req st)") auto
  let ?st1 = "st\<lparr>trace := trace st @ CallGetUpdates (req st) # map (\<lambda>(cl, rq). Transact cl rq) lg\<rparr>"
  show ?thesis
  proof (cases e)
    case (Some er)
    have "iteration ws b done k st =
        st\<lparr>trace := trace st @ CallGetUpdates (req st) # map (\<lambda>(cl, rq). Transact cl rq) lg @
                  [SendError er, Sleep (BackoffPeriod b)]\<rparr>"
      using assms g unfolding Some by (rule iteration_failure)
    then show ?thesis using g Some by simp
  next
    case None
    have it: "iteration ws b done k st = deliver upds ?st1"
      using assms g unfolding None by (rule iteration_success)
    obtain m where m: "trace (deliver upds ?st1) = trace ?st1 @ map SendUpdate (take m upds)"
      using deliver_sends by blast
    have r: "req (deliver upds ?st1) = (req ?st1)\<lparr>Offset := Offset (req (deliver upds ?st1))\<rparr>"
      by (rule deliver_rest)
    have p: "phase (deliver upds ?st1) = phase ?st1 \<or> phase (deliver upds ?st1) = Panicked"
      by (rule deliver_phase_any)
    have "trace (iteration ws b done k st) =
             trace st @ CallGetUpdates (req st) # map (\<lambda>(cl, rq). Transact cl rq) lg @
               (case e of Some er \<Rightarrow> [SendError er, Sleep (BackoffPeriod b)]
                | None \<Rightarrow> map SendUpdate (take m upds))"
      using m by (simp add: it None)
    moreover have "req (iteration ws b done k st) =
             (req st)\<lparr>Offset := Offset (req (iteration ws b done k st))\<rparr>"
      using r by (simp add: it)
    moreover have "phase (iteration ws b done k st) = phase st \<or>
            phase (iteration ws b done k st) = Panicked"
      using p by (simp add: it)
    ultimately show ?thesis using g by blast
  qed
qed

lemma iteration_mono:
  assumes "\<forall>u. Some u \<in> set (fst (snd (GetUpdates (ws k) b (req st)))) \<longrightarrow> sint (ID u) < 2 ^ 63 - 1"
  shows "sint (Offset (req st)) \<le> sint (Offset (req (iteration ws b done k st)))"
proof (cases "done k")
  case True
  then show ?thesis by (simp add: iteration_cancel)
next
  case False
  obtain lg upds e where g: "GetUpdates (ws k) b (req st) = (lg, upds, e)"
    by (cases "GetUpdates (ws k) b (req st)") auto
  show ?thesis
  proof (cases e)
    case (Some er)
    have "iteration ws b done k st =
        st\<lparr>trace := trace st @ CallGetUpdates (req st) # map (\<lambda>(cl, rq). Transact cl rq) lg @
                  [SendError er, Sleep (BackoffPeriod b)]\<rparr>"
      using False g unfolding Some by (rule iteration_failure)
    then show ?thesis by simp
  next
    case None
    have ids: "\<forall>u. Some u \<in> set upds \<longrightarrow> sint (ID u) < 2 ^ 63 - 1"
      using assms g by simp
    have "iteration ws b done k st = deliver upds
        (st\<lparr>trace := trace st @ CallGetUpdates (req st) # map (\<lambda>(cl, rq). Transact cl rq) lg\<rparr>)"
      using False g unfolding None by (rule iteration_success)
    then show ?thesis
      using deliver_mono [OF ids, of "st\<lparr>trace := trace st @ CallGetUpdates (req st) # map (\<lambda>(cl, rq). Transact cl rq) lg\<rparr>"]
      by simp
  qed
qed

lemma results_halted: "phase st \<noteq> Running \<Longrightarrow> results ws b done n k st = []"
  by (cases n) simp_all

lemma loop_mono:
  assumes "\<forall>r \<in> set (results ws b done n k st).
             \<forall>u. Some u \<in> set (fst (snd r)) \<longrightarrow> sint (ID u) < 2 ^ 63 - 1"
  shows "sint (Offset (req st)) \<le> sint (Offset (req (loop ws b done n k st)))"
  using assms
proof (induction n arbitrary: k st)
  case 0
  show ?case by simp
next
  case (Suc n)
  show ?case
  proof (cases "phase st \<noteq> Running \<or> done k")
    case True
    then show ?thesis
      by (auto simp add: iteration_cancel loop_halted)
  next
    case False
    have here: "\<forall>u. Some u \<in> set (fst (snd (GetUpdates (ws k) b (req st)))) \<longrightarrow>
        sint (ID u) < 2 ^ 63 - 1"
      using Suc.prems False by simp
    have later: "\<forall>r \<in> set (results ws b done n (Suc k) (iteration ws b done k st)).
        \<forall>u. Some u \<in> set (fst (snd r)) \<longrightarrow> sint (ID u) < 2 ^ 63 - 1"
      using Suc.prems False by simp
    have "sint (Offset (req st)) \<le> sint (Offset (req (iteration ws b done k st)))"
      using here by (rule iteration_mono)
    also have "\<dots> \<le> sint (Offset (req (loop ws b done n (Suc k) (iteration ws b done k st))))"
      using later by (rule Suc.IH)
    finally show ?thesis using False by simp
  qed
qed

lemma loop_add:
  "loop ws b done (m + d) k st = loop ws b done d (k + m) (loop ws b done m k st)"
proof (induction m arbitrary: k st)
  case 0
  show ?case by simp
next
  case (Suc m)
  show ?case
  proof (cases "phase st = Running")
    case True
    then show ?thesis using Suc.IH [of "Suc k" "iteration ws b done k st"] by simp
  next
    case False
    then show ?thesis by (simp add: loop_halted)
  qed
qed

lemma results_add:
  "results ws b done (m + d) k st =
     results ws b done m k st @ results ws b done d (k + m) (loop ws b done m k st)"
proof (induction m arbitrary: k st)
  case 0
  show ?case by simp
next
  case (Suc m)
  show ?case
  proof (cases "phase st \<noteq> Running \<or> done k")
    case True
    then show ?thesis
      by (auto simp add: results_halted loop_halted iteration_cancel)
  next
    case False
    then show ?thesis using Suc.IH [of "Suc k" "iteration ws b done k st"] by simp
  qed
qed

text \<open>
  C7 (as amended). As long as every identifier received in the session is below
  \<open>2 ^ 63 - 1\<close>, the cursor never decreases: between any two moments of the
  loop, and inside a batch between any prefix of it and the longer prefixes.
\<close>

theorem cursor_never_decreases:
  assumes "\<forall>r \<in> set (results ws b done n k st).
             \<forall>u. Some u \<in> set (fst (snd r)) \<longrightarrow> sint (ID u) < 2 ^ 63 - 1"
  shows "(\<forall>m \<le> n. sint (Offset (req (loop ws b done m k st))) \<le>
                   sint (Offset (req (loop ws b done n k st)))) \<and>
         (\<forall>r \<in> set (results ws b done n k st). \<forall>xs ys q.
             fst (snd r) = xs @ ys \<longrightarrow>
             sint (Offset (req (deliver xs q))) \<le> sint (Offset (req (deliver (xs @ ys) q))))"
proof (intro conjI allI impI ballI)
  fix m
  assume "m \<le> n"
  then obtain d where n: "n = m + d" using le_Suc_ex by blast
  have "\<forall>r \<in> set (results ws b done d (k + m) (loop ws b done m k st)).
          \<forall>u. Some u \<in> set (fst (snd r)) \<longrightarrow> sint (ID u) < 2 ^ 63 - 1"
    using assms unfolding n results_add by auto
  then have "sint (Offset (req (loop ws b done m k st))) \<le>
      sint (Offset (req (loop ws b done d (k + m) (loop ws b done m k st))))"
    by (rule loop_mono)
  then show "sint (Offset (req (loop ws b done m k st))) \<le>
      sint (Offset (req (loop ws b done n k st)))"
    unfolding n loop_add .
next
  fix r xs ys and q :: "('a, 'b, 'c, 'd) Update poller"
  assume r: "r \<in> set (results ws b done n k st)" and split: "fst (snd r) = xs @ ys"
  have ids: "\<forall>u. Some u \<in> set ys \<longrightarrow> sint (ID u) < 2 ^ 63 - 1"
    using assms r split by simp
  show "sint (Offset (req (deliver xs q))) \<le> sint (Offset (req (deliver (xs @ ys) q)))"
    using deliver_mono [OF ids, of "deliver xs q"] by (simp add: deliver_append)
qed


lemma feed_GetUpdates:
  "GetUpdates (feed bs k) b q =
     ([(pollClient (caller b),
        \<lparr>Method = ''POST'', URL = prefix (caller b) @ ''getUpdates'', Body = Some ''{}'',
         Header = [''Content-Type'' \<mapsto> ''application/json'']\<rparr>)],
      (case drop k bs of [] \<Rightarrow> [] | us # _ \<Rightarrow> us), None)"
  by (simp add: feed_def replying_GetUpdates)

lemmas run_simps =
  Background_def started_def someRequest_def bare_def iteration_def Let_def

theorem cursor_never_decreases_witness:
  "sint (Offset (req (loop (feed [[Some (bare 5), Some (bare 7)], [Some (bare 6)]]) someBot
           Background (Suc 0) 0 (started someRequest)))) \<le>
   sint (Offset (req (loop (feed [[Some (bare 5), Some (bare 7)], [Some (bare 6)]]) someBot
           Background (Suc (Suc 0)) 0 (started someRequest)))) \<and>
   sint (Offset (req (loop (feed [[Some (bare 5), Some (bare 7)], [Some (bare 6)]]) someBot
           Background (Suc (Suc 0)) 0 (started someRequest)))) = 8"
proof -
  let ?ws = "feed [[Some (bare 5), Some (bare 7)], [Some (bare 6)]]"
  have ids: "\<forall>r \<in> set (results ?ws someBot Background (Suc (Suc 0)) 0 (started someRequest)).
      \<forall>u. Some u \<in> set (fst (snd r)) \<longrightarrow> sint (ID u) < 2 ^ 63 - 1"
    by (auto simp add: feed_GetUpdates run_simps)
  have 8: "sint (Offset (req (loop ?ws someBot Background (Suc (Suc 0)) 0 (started someRequest)))) = 8"
    by (simp add: feed_GetUpdates run_simps)
  show ?thesis
    using cursor_never_decreases [OF ids, THEN conjunct1, rule_format, of "Suc 0"] 8
    by simp
qed

text \<open>
  Without the bound the statement of C7 fails: one pass that receives the identifier
  \<open>2 ^ 63 - 1\<close> takes the cursor from 0 down to \<open>- (2 ^ 63)\<close>.
\<close>

theorem cursor_wraps_around:
  "batches (results (steady (replying [Some (bare topID)])) someBot Background (Suc 0) 0
     (started someRequest)) = [[Some (bare topID)]] \<and>
   sint (ID (bare topID)) = 2 ^ 63 - 1 \<and>
   sint (Offset (req (loop (steady (replying [Some (bare topID)])) someBot Background 0 0
                        (started someRequest)))) = 0 \<and>
   sint (Offset (req (loop (steady (replying [Some (bare topID)])) someBot Background (Suc 0) 0
                        (started someRequest)))) = - (2 ^ 63) \<and>
   sint (Offset (req (loop (steady (replying [Some (bare topID)])) someBot Background (Suc 0) 0
                        (started someRequest)))) <
     sint (Offset (req (loop (steady (replying [Some (bare topID)])) someBot Background 0 0
                        (started someRequest))))"
  by (simp add: steady_def replying_GetUpdates run_simps topID_def batches_def)


lemma emitted_iteration_failure:
  assumes "\<not> done k" and "GetUpdates (ws k) b (req st) = (lg, upds, Some e)"
  shows "emitted (trace (iteration ws b done k st)) = emitted (trace st)"
proof -
  have "iteration ws b done k st =
      st\<lparr>trace := trace st @ CallGetUpdates (req st) # map (\<lambda>(cl, rq). Transact cl rq) lg @
                [SendError e, Sleep (BackoffPeriod b)]\<rparr>"
    using assms by (rule iteration_failure)
  then show ?thesis by (simp add: emitted_append emitted_transacts)
qed

lemma emitted_iteration_success:
  assumes "\<not> done k" and "GetUpdates (ws k) b (req st) = (lg, upds, None)"
    and "None \<notin> set upds"
  shows "emitted (trace (iteration ws b done k st)) = emitted (trace st) @ upds"
proof -
  let ?st1 = "st\<lparr>trace := trace st @ CallGetUpdates (req st) # map (\<lambda>(cl, rq). Transact cl rq) lg\<rparr>"
  have it: "iteration ws b done k st = deliver upds ?st1"
    using assms(1,2) by (rule iteration_success)
  define us where "us = map the upds"
  have us: "upds = map Some us"
    using all_Some [OF assms(3)] by (simp add: us_def)
  have "trace (deliver upds ?st1) = trace ?st1 @ map SendUpdate upds"
    unfolding us by (simp add: deliver_trace)
  then show ?thesis
    by (simp add: it emitted_append emitted_transacts emitted_sends)
qed

text \<open>
  C3 (as amended). Over any stretch of the loop in which no batch of a successful call
  holds a nil element, the values sent on the update channel are exactly the batches
  of the successful calls of that stretch, concatenated in the order of the calls,
  after what was sent before: every update once, in the order received, nothing
  dropped, repeated or reordered across batches.
\<close>

theorem updates_emitted_in_order:
  assumes "\<forall>r \<in> set (results ws b done n k st). snd (snd r) = None \<longrightarrow> None \<notin> set (fst (snd r))"
  shows "emitted (trace (loop ws b done n k st)) =
           emitted (trace st) @ concat (batches (results ws b done n k st))"
  using assms
proof (induction n arbitrary: k st)
  case 0
  show ?case by (simp add: batches_def)
next
  case (Suc n)
  show ?case
  proof (cases "phase st \<noteq> Running \<or> done k")
    case True
    then show ?thesis
      by (auto simp add: iteration_cancel loop_halted batches_def emitted_append)
  next
    case False
    obtain lg upds e where g: "GetUpdates (ws k) b (req st) = (lg, upds, e)"
      by (cases "GetUpdates (ws k) b (req st)") auto
    have rs: "results ws b done (Suc n) k st =
        (lg, upds, e) # results ws b done n (Suc k) (iteration ws b done k st)"
      using False g by simp
    have later: "\<forall>r \<in> set (results ws b done n (Suc k) (iteration ws b done k st)).
        snd (snd r) = None \<longrightarrow> None \<notin> set (fst (snd r))"
      using Suc.prems unfolding rs by simp
    have ih: "emitted (trace (loop ws b done n (Suc k) (iteration ws b done k st))) =
        emitted (trace (iteration ws b done k st)) @
        concat (batches (results ws b done n (Suc k) (iteration ws b done k st)))"
      using later by (rule Suc.IH)
    have lp: "loop ws b done (Suc n) k st = loop ws b done n (Suc k) (iteration ws b done k st)"
      using False by simp
    show ?thesis
    proof (cases e)
      case (Some er)
      have "emitted (trace (iteration ws b done k st)) = emitted (trace st)"
        using False g unfolding Some by (intro emitted_iteration_failure) auto
      then show ?thesis
        unfolding lp rs ih by (simp add: batches_def Some)
    next
      case None
      have "None \<notin> set upds"
        using Suc.prems unfolding rs by (simp add: None)
      then have "emitted (trace (iteration ws b done k st)) = emitted (trace st) @ upds"
        using False g unfolding None by (intro emitted_iteration_success) auto
      then show ?thesis
        unfolding lp rs ih by (simp add: batches_def None)
    qed
  qed
qed

theorem updates_emitted_in_order_witness:
  "emitted (trace (loop (feed [[Some (bare 5), Some (bare 7)], [], [Some (bare 9)]]) someBot
      Background (Suc (Suc (Suc 0))) 0 (started someRequest))) =
     [Some (bare 5), Some (bare 7), Some (bare 9)]"
proof -
  let ?ws = "feed [[Some (bare 5), Some (bare 7)], [], [Some (bare 9)]]"
  have rs: "batches (results ?ws someBot Background (Suc (Suc (Suc 0))) 0 (started someRequest)) =
      [[Some (bare 5), Some (bare 7)], [], [Some (bare 9)]]"
    by (simp add: feed_GetUpdates run_simps batches_def)
  have ok: "\<forall>r \<in> set (results ?ws someBot Background (Suc (Suc (Suc 0))) 0 (started someRequest)).
      snd (snd r) = None \<longrightarrow> None \<notin> set (fst (snd r))"
    by (simp add: feed_GetUpdates run_simps)
  have e0: "emitted (trace (started someRequest)) = []"
    by (simp add: started_def)
  show ?thesis
    unfolding updates_emitted_in_order [OF ok] rs e0 by simp
qed

text \<open>
  Without that condition the statement of C3 fails: for the batch 5, nil, 7, returned
  without an error, the goroutine sends 5 and the nil pointer, panics at \<open>upd.ID\<close>
  and never sends 7.
\<close>

theorem nil_update_drops_rest:
  "\<not> Background 0 \<and>
   fst (snd (GetUpdates (steady (replying [Some (bare 5), None, Some (bare 7)]) 0) someBot
               (req (started someRequest)))) = [Some (bare 5), None, Some (bare 7)] \<and>
   snd (snd (GetUpdates (steady (replying [Some (bare 5), None, Some (bare 7)]) 0) someBot
               (req (started someRequest)))) = None \<and>
   batches (results (steady (replying [Some (bare 5), None, Some (bare 7)])) someBot Background
              (Suc (Suc (Suc 0))) 0 (started someRequest)) =
     [[Some (bare 5), None, Some (bare 7)]] \<and>
   emitted (trace (loop (steady (replying [Some (bare 5), None, Some (bare 7)])) someBot Background
                     (Suc (Suc (Suc 0))) 0 (started someRequest))) = [Some (bare 5), None] \<and>
   phase (loop (steady (replying [Some (bare 5), None, Some (bare 7)])) someBot Background
            (Suc (Suc (Suc 0))) 0 (started someRequest)) = Panicked \<and>
   Some (bare 7) \<notin> set (emitted (trace (loop (steady (replying [Some (bare 5), None, Some (bare 7)]))
                     someBot Background (Suc (Suc (Suc 0))) 0 (started someRequest)))) \<and>
   emitted (trace (loop (steady (replying [Some (bare 5), None, Some (bare 7)])) someBot Background
                     (Suc (Suc (Suc 0))) 0 (started someRequest))) \<noteq>
     [Some (bare 5), None, Some (bare 7)]"
  by (simp add: steady_def replying_GetUpdates run_simps batches_def)

text \<open>
  C5. A run of \<open>n\<close> passes in which every call fails and no cancellation is seen, for
  any \<open>n\<close>: the goroutine is still running afterwards, the request (the cursor with
  it) is unchanged, and each pass has added to the trace, in this order, its call, the
  error sent on the error channel and a sleep of \<open>b.BackoffPeriod\<close>; the next call
  comes only after that. The delay is the same in every pass.
\<close>

theorem failed_polls_back_off:
  assumes "phase st = Running"
    and "\<forall>j<n. \<not> done (k + j) \<and>
           (\<exists>upds. GetUpdates (ws (k + j)) b (req st) = (lg (k + j), upds, Some (es (k + j))))"
  shows "phase (loop ws b done n k st) = Running \<and>
         req (loop ws b done n k st) = req st \<and>
         trace (loop ws b done n k st) =
           trace st @
           concat (map (\<lambda>j. CallGetUpdates (req st) # map (\<lambda>(cl, rq). Transact cl rq) (lg j) @
                              [SendError (es j), Sleep (BackoffPeriod b)]) [k..<k + n])"
  using assms
proof (induction n arbitrary: k st)
  case 0
  then show ?case by simp
next
  case (Suc n)
  let ?seg = "\<lambda>j. CallGetUpdates (req st) # map (\<lambda>(cl, rq). Transact cl rq) (lg j) @
                     [SendError (es j), Sleep (BackoffPeriod b)]"
  let ?st1 = "st\<lparr>trace := trace st @ ?seg k\<rparr>"
  have nd: "\<not> done k"
    using Suc.prems(2) [rule_format, of 0] by simp
  obtain upds where g: "GetUpdates (ws k) b (req st) = (lg k, upds, Some (es k))"
    using Suc.prems(2) [rule_format, of 0] by auto
  have it: "iteration ws b done k st = ?st1"
    using nd g by (rule iteration_failure)
  have lp: "loop ws b done (Suc n) k st = loop ws b done n (Suc k) ?st1"
    using Suc.prems(1) by (simp add: it)
  have run1: "phase ?st1 = Running"
    using Suc.prems(1) by simp
  have later: "\<forall>j<n. \<not> done (Suc k + j) \<and>
      (\<exists>upds. GetUpdates (ws (Suc k + j)) b (req ?st1) = (lg (Suc k + j), upds, Some (es (Suc k + j))))"
  proof (intro allI impI)
    fix j
    assume "j < n"
    then have "Suc j < Suc n" by simp
    then show "\<not> done (Suc k + j) \<and>
      (\<exists>upds. GetUpdates (ws (Suc k + j)) b (req ?st1) = (lg (Suc k + j), upds, Some (es (Suc k + j))))"
      using Suc.prems(2) [rule_format, of "Suc j"] by simp
  qed
  have ih: "phase (loop ws b done n (Suc k) ?st1) = Running \<and>
      req (loop ws b done n (Suc k) ?st1) = req ?st1 \<and>
      trace (loop ws b done n (Suc k) ?st1) =
        trace ?st1 @
        concat (map (\<lambda>j. CallGetUpdates (req ?st1) # map (\<lambda>(cl, rq). Transact cl rq) (lg j) @
                            [SendError (es j), Sleep (BackoffPeriod b)]) [Suc k..<Suc k + n])"
    using run1 later by (rule Suc.IH)
  have upt: "[k..<k + Suc n] = k # [Suc k..<Suc k + n]"
    by (simp add: upt_conv_Cons)
  show ?case
    unfolding lp upt using ih by simp
qed


theorem failed_polls_back_off_witness:
  "phase (loop (steady unreachable) someBot Background (Suc (Suc 0)) 0 (started someRequest)) =
     Running \<and>
   req (loop (steady unreachable) someBot Background (Suc (Suc 0)) 0 (started someRequest)) =
     someRequest \<and>
   trace (loop (steady unreachable) someBot Background (Suc (Suc 0)) 0 (started someRequest)) =
     [CallGetUpdates someRequest,
      Transact \<lparr>ClientTimeout = 5 * Minute\<rparr>
        \<lparr>Method = ''POST'', URL = ''https://api.telegram.org/bot123:abc/getUpdates'',
         Body = Some ''{}'', Header = [''Content-Type'' \<mapsto> ''application/json'']\<rparr>,
      SendError (Foreign ''timeout''), Sleep (5 * Second),
      CallGetUpdates someRequest,
      Transact \<lparr>ClientTimeout = 5 * Minute\<rparr>
        \<lparr>Method = ''POST'', URL = ''https://api.telegram.org/bot123:abc/getUpdates'',
         Body = Some ''{}'', Header = [''Content-Type'' \<mapsto> ''application/json'']\<rparr>,
      SendError (Foreign ''timeout''), Sleep (5 * Second)]"
proof -
  let ?lg = "\<lambda>j::nat. [(pollClient (caller someBot),
        \<lparr>Method = ''POST'', URL = prefix (caller someBot) @ ''getUpdates'', Body = Some ''{}'',
         Header = [''Content-Type'' \<mapsto> ''application/json'']\<rparr>)]"
  let ?es = "\<lambda>j::nat. Foreign ''timeout''"
  have run: "phase (started someRequest) = Running"
    by (simp add: started_def)
  have fails: "\<forall>j<Suc (Suc 0). \<not> Background (0 + j) \<and>
      (\<exists>upds. GetUpdates (steady unreachable (0 + j)) someBot (req (started someRequest)) =
         (?lg (0 + j), upds, Some (?es (0 + j))))"
    by (simp add: Background_def steady_def unreachable_GetUpdates)
  have upt: "[0..<0 + Suc (Suc 0)] = [0, Suc 0]"
    by (simp add: upt_conv_Cons)
  show ?thesis
    using failed_polls_back_off [of "started someRequest" "Suc (Suc 0)" Background 0
        "steady unreachable" someBot ?lg ?es, OF run fails]
    unfolding upt
    by (simp add: started_def someBot_def NewCaller_def EndpointURL_def DefaultBackoffPeriod_def)
qed

lemma iteration_open:
  assumes "\<not> done k" and "CloseUpdates \<notin> set (trace st)" and "CloseErrors \<notin> set (trace st)"
  shows "CloseUpdates \<notin> set (trace (iteration ws b done k st)) \<and>
         CloseErrors \<notin> set (trace (iteration ws b done k st))"
proof -
  obtain lg upds e m where
    t: "trace (iteration ws b done k st) =
          trace st @ CallGetUpdates (req st) # map (\<lambda>(cl, rq). Transact cl rq) lg @
            (case e of Some er \<Rightarrow> [SendError er, Sleep (BackoffPeriod b)]
             | None \<Rightarrow> map SendUpdate (take m upds))"
    using iteration_shape [of "done" k ws b st, OF assms(1)] by blast
  show ?thesis
    unfolding t using assms(2,3) by (auto split: option.splits)
qed

lemma loop_open:
  assumes "phase (loop ws b done n k st) = Running"
    and "CloseUpdates \<notin> set (trace st)" and "CloseErrors \<notin> set (trace st)"
  shows "CloseUpdates \<notin> set (trace (loop ws b done n k st)) \<and>
         CloseErrors \<notin> set (trace (loop ws b done n k st))"
  using assms
proof (induction n arbitrary: k st)
  case 0
  then show ?case by simp
next
  case (Suc n)
  show ?case
  proof (cases "phase st = Running")
    case False
    then show ?thesis using Suc.prems by (simp add: loop_halted)
  next
    case True
    have lp: "loop ws b done (Suc n) k st = loop ws b done n (Suc k) (iteration ws b done k st)"
      using True by simp
    have nd: "\<not> done k"
    proof
      assume "done k"
      then have "loop ws b done (Suc n) k st =
          st\<lparr>trace := trace st @ [CloseUpdates, CloseErrors], phase := Stopped\<rparr>"
        unfolding lp by (simp add: iteration_cancel loop_halted)
      then show False using Suc.prems(1) by simp
    qed
    have o: "CloseUpdates \<notin> set (trace (iteration ws b done k st)) \<and>
         CloseErrors \<notin> set (trace (iteration ws b done k st))"
      using nd Suc.prems(2,3) by (rule iteration_open)
    have r: "phase (loop ws b done n (Suc k) (iteration ws b done k st)) = Running"
      using Suc.prems(1) unfolding lp .
    show ?thesis
      unfolding lp using r o [THEN conjunct1] o [THEN conjunct2] by (rule Suc.IH)
  qed
qed

lemma loop_never_stops:
  assumes "\<forall>j. \<not> done j" and "phase st \<noteq> Stopped"
  shows "phase (loop ws b done n k st) \<noteq> Stopped"
  using assms(2)
proof (induction n arbitrary: k st)
  case 0
  then show ?case by simp
next
  case (Suc n)
  show ?case
  proof (cases "phase st = Running")
    case False
    then show ?thesis using Suc.prems by (simp add: loop_halted)
  next
    case True
    have nd: "\<not> done k" using assms(1) by simp
    have "phase (iteration ws b done k st) = phase st \<or> phase (iteration ws b done k st) = Panicked"
      using iteration_shape [of "done" k ws b st, OF nd] by blast
    then have "phase (iteration ws b done k st) \<noteq> Stopped"
      using True by auto
    then have "phase (loop ws b done n (Suc k) (iteration ws b done k st)) \<noteq> Stopped"
      by (rule Suc.IH)
    then show ?thesis using True by simp
  qed
qed

lemma PollUpdates_loop:
  "PollUpdates ws b ctx (Some r) n =
     Some (loop ws b (case ctx of None \<Rightarrow> Background | Some c \<Rightarrow> c) n 0
       \<lparr>req = (if Timeout r \<le> 0 then r\<lparr>Timeout := DefaultPollTimeout\<rparr> else r),
        phase = Running, trace = []\<rparr>)"
  by (simp add: PollUpdates_def Let_def)

lemma loop_cancelled:
  assumes "phase st = Running" and "done k"
  shows "loop ws b done (Suc d) k st =
           st\<lparr>trace := trace st @ [CloseUpdates, CloseErrors], phase := Stopped\<rparr>"
proof -
  have "loop ws b done (Suc d) k st = loop ws b done d (Suc k) (iteration ws b done k st)"
    using assms(1) by simp
  also have "iteration ws b done k st =
      st\<lparr>trace := trace st @ [CloseUpdates, CloseErrors], phase := Stopped\<rparr>"
    using assms(2) by (rule iteration_cancel)
  also have "loop ws b done d (Suc k)
      (st\<lparr>trace := trace st @ [CloseUpdates, CloseErrors], phase := Stopped\<rparr>) =
      st\<lparr>trace := trace st @ [CloseUpdates, CloseErrors], phase := Stopped\<rparr>"
    by (rule loop_halted) simp
  finally show ?thesis .
qed


text \<open>
  C6. When the \<open>select\<close> at the top of pass \<open>k\<close> finds the context done, whatever
  the outside world would answer, the goroutine closes the update channel and the
  error channel, each once in the whole trace, and returns: however many further
  passes are looked at, the state stays the one right after the two closes, with no
  call and no send after them. Without a cancellation the goroutine never reaches
  \<open>Stopped\<close>; a nil context is never done.
\<close>

theorem cancellation_stops:
  assumes "PollUpdates ws b (Some done) (Some r) k = Some st"
    and "phase st = Running"
    and "done k"
  shows "(\<forall>n>k. PollUpdates ws b (Some done) (Some r) n =
            Some (st\<lparr>trace := trace st @ [CloseUpdates, CloseErrors], phase := Stopped\<rparr>)) \<and>
         count_list (trace st @ [CloseUpdates, CloseErrors]) CloseUpdates = 1 \<and>
         count_list (trace st @ [CloseUpdates, CloseErrors]) CloseErrors = 1 \<and>
         (\<forall>n j. loop ws b done n j
                  (st\<lparr>trace := trace st @ [CloseUpdates, CloseErrors], phase := Stopped\<rparr>) =
                st\<lparr>trace := trace st @ [CloseUpdates, CloseErrors], phase := Stopped\<rparr>) \<and>
         (\<forall>c n st'. (\<forall>j. \<not> c j) \<and> PollUpdates ws b (Some c) (Some r) n = Some st' \<longrightarrow>
            phase st' \<noteq> Stopped) \<and>
         (\<forall>n st'. PollUpdates ws b None (Some r) n = Some st' \<longrightarrow> phase st' \<noteq> Stopped)"
proof -
  define st0 where "st0 =
    \<lparr>req = (if Timeout r \<le> 0 then r\<lparr>Timeout := DefaultPollTimeout\<rparr> else r),
     phase = Running, trace = ([] :: ('a, 'b, 'c, 'd) Update event list)\<rparr>"
  define fin where "fin = st\<lparr>trace := trace st @ [CloseUpdates, CloseErrors], phase := Stopped\<rparr>"
  have poll: "PollUpdates ws b (Some c) (Some r) n = Some (loop ws b c n 0 st0)" for c n
    unfolding st0_def PollUpdates_loop by simp
  have pollnil: "PollUpdates ws b None (Some r) n = Some (loop ws b Background n 0 st0)" for n
    unfolding st0_def PollUpdates_loop by simp
  have st: "loop ws b done k 0 st0 = st"
    using assms(1) unfolding poll by simp
  have p0: "phase st0 = Running" and t0: "trace st0 = []"
    by (simp_all add: st0_def)
  have after: "PollUpdates ws b (Some done) (Some r) n = Some fin" if "k < n" for n
  proof -
    have "\<exists>d. n = Suc (k + d)"
      using that by (rule less_imp_Suc_add)
    then obtain d where n: "n = k + Suc d" by auto
    have "loop ws b done (k + Suc d) 0 st0 = loop ws b done (Suc d) (0 + k) (loop ws b done k 0 st0)"
      by (rule loop_add)
    also have "\<dots> = loop ws b done (Suc d) k st"
      by (simp add: st)
    also have "\<dots> = fin"
      unfolding fin_def using assms(2,3) by (rule loop_cancelled)
    finally show ?thesis unfolding poll n by simp
  qed
  have r: "phase (loop ws b done k 0 st0) = Running"
    unfolding st by (rule assms(2))
  have opn: "CloseUpdates \<notin> set (trace (loop ws b done k 0 st0)) \<and>
      CloseErrors \<notin> set (trace (loop ws b done k 0 st0))"
    using r by (rule loop_open) (simp_all add: t0)
  have cu: "count_list (trace st @ [CloseUpdates, CloseErrors]) CloseUpdates = 1"
    using opn unfolding st by (simp add: count_list_0_iff)
  have ce: "count_list (trace st @ [CloseUpdates, CloseErrors]) CloseErrors = 1"
    using opn unfolding st by (simp add: count_list_0_iff)
  have halted: "loop ws b done n j fin = fin" for n j
    by (rule loop_halted) (simp add: fin_def)
  have never: "phase st' \<noteq> Stopped"
    if "(\<forall>j. \<not> c j) \<and> PollUpdates ws b (Some c) (Some r) n = Some st'" for c n st'
  proof -
    have nd: "\<forall>j. \<not> c j" using that by simp
    have "loop ws b c n 0 st0 = st'" using that unfolding poll by simp
    moreover have "phase (loop ws b c n 0 st0) \<noteq> Stopped"
      using nd by (rule loop_never_stops) (simp add: p0)
    ultimately show ?thesis by simp
  qed
  have nevernil: "phase st' \<noteq> Stopped"
    if "PollUpdates ws b None (Some r) n = Some st'" for n st'
  proof -
    have nd: "\<forall>j. \<not> Background j" by (simp add: Background_def)
    have "loop ws b Background n 0 st0 = st'" using that unfolding pollnil by simp
    moreover have "phase (loop ws b Background n 0 st0) \<noteq> Stopped"
      using nd by (rule loop_never_stops) (simp add: p0)
    ultimately show ?thesis by simp
  qed
  show ?thesis
    unfolding fin_def [symmetric]
  proof (intro conjI allI impI)
    fix n
    assume "k < n"
    then show "PollUpdates ws b (Some done) (Some r) n = Some fin" by (rule after)
  next
    show "count_list (trace st @ [CloseUpdates, CloseErrors]) CloseUpdates = 1" by (rule cu)
  next
    show "count_list (trace st @ [CloseUpdates, CloseErrors]) CloseErrors = 1" by (rule ce)
  next
    fix n j
    show "loop ws b done n j fin = fin" by (rule halted)
  next
    fix c n st'
    assume "(\<forall>j. \<not> c j) \<and> PollUpdates ws b (Some c) (Some r) n = Some st'"
    then show "phase st' \<noteq> Stopped" by (rule never)
  next
    fix n st'
    assume "PollUpdates ws b None (Some r) n = Some st'"
    then show "phase st' \<noteq> Stopped" by (rule nevernil)
  qed
qed



theorem cancellation_stops_witness:
  "PollUpdates (feed [[Some (bare 5)]]) someBot (Some (cancelledFrom (Suc 0))) (Some someRequest)
     (Suc (Suc (Suc 0))) =
   Some \<lparr>req = someRequest\<lparr>Offset := 6, Timeout := 60\<rparr>, phase = Stopped,
         trace = [CallGetUpdates (someRequest\<lparr>Timeout := 60\<rparr>),
                  Transact \<lparr>ClientTimeout = 5 * Minute\<rparr>
                    \<lparr>Method = ''POST'', URL = ''https://api.telegram.org/bot123:abc/getUpdates'',
                     Body = Some ''{}'', Header = [''Content-Type'' \<mapsto> ''application/json'']\<rparr>,
                  SendUpdate (Some (bare 5)), CloseUpdates, CloseErrors]\<rparr>"
proof -
  let ?st = "\<lparr>req = someRequest\<lparr>Offset := 6, Timeout := 60\<rparr>, phase = Running,
         trace = [CallGetUpdates (someRequest\<lparr>Timeout := 60\<rparr>),
                  Transact \<lparr>ClientTimeout = 5 * Minute\<rparr>
                    \<lparr>Method = ''POST'', URL = ''https://api.telegram.org/bot123:abc/getUpdates'',
                     Body = Some ''{}'', Header = [''Content-Type'' \<mapsto> ''application/json'']\<rparr>,
                  SendUpdate (Some (bare 5))]\<rparr>"
  have first: "PollUpdates (feed [[Some (bare 5)]]) someBot (Some (cancelledFrom (Suc 0)))
      (Some someRequest) (Suc 0) = Some ?st"
    by (simp add: PollUpdates_def cancelledFrom_def feed_GetUpdates iteration_def Let_def
        someRequest_def bare_def DefaultPollTimeout_def someBot_def NewCaller_def EndpointURL_def)
  have running: "phase ?st = Running"
    by simp
  have cancelled: "cancelledFrom (Suc 0) (Suc 0)"
    by (simp add: cancelledFrom_def)
  show ?thesis
    using cancellation_stops [OF first running cancelled, THEN conjunct1, rule_format,
        of "Suc (Suc (Suc 0))"]
    by simp
qed






end
